theory Spec2Isabelle
  imports Complex_Main "HOL-Library.AList"
begin

section \<open>Dates and times\<close>

text \<open>
  A naive \<^verbatim>\<open>datetime\<close> of Python's standard library, with the fields the
  scheduler reads. The proleptic Gregorian day number follows the library's
  \<^verbatim>\<open>_ymd2ord\<close>; \<^verbatim>\<open>weekday()\<close> is \<^verbatim>\<open>(toordinal() + 6) % 7\<close>, Monday being 0.
\<close>

record datetime =
  year :: int
  month :: int
  day :: int
  hour :: int
  minute :: int
  second :: int
  microsecond :: int

definition is_leap :: "int \<Rightarrow> bool" where
  "is_leap y = (y mod 4 = 0 \<and> (y mod 100 \<noteq> 0 \<or> y mod 400 = 0))"

definition days_before_year :: "int \<Rightarrow> int" where
  "days_before_year y = (y - 1) * 365 + (y - 1) div 4 - (y - 1) div 100 + (y - 1) div 400"

definition days_in_month :: "int \<Rightarrow> int \<Rightarrow> int" where
  "days_in_month y m =
     (if m = 2 then (if is_leap y then 29 else 28)
      else if m = 4 \<or> m = 6 \<or> m = 9 \<or> m = 11 then 30 else 31)"

definition days_before_month :: "int \<Rightarrow> int \<Rightarrow> int" where
  "days_before_month y m = sum_list (map (days_in_month y) [1..m - 1])"

definition toordinal :: "datetime \<Rightarrow> int" where
  "toordinal d = days_before_year (year d) + days_before_month (year d) (month d) + day d"

definition ordinal_weekday :: "int \<Rightarrow> int" where
  "ordinal_weekday n = (n + 6) mod 7"

definition weekday :: "datetime \<Rightarrow> int" where
  "weekday d = ordinal_weekday (toordinal d)"

text \<open>Microseconds since the start of day number 0: the order of naive datetimes.\<close>

definition microseconds :: "datetime \<Rightarrow> int" where
  "microseconds d =
     (((toordinal d * 24 + hour d) * 60 + minute d) * 60 + second d) * 1000000 + microsecond d"

definition dt_less :: "datetime \<Rightarrow> datetime \<Rightarrow> bool" where
  "dt_less a b = (microseconds a < microseconds b)"

text \<open>\<^verbatim>\<open>(a - b).days\<close>: a timedelta is normalised, its days are the floor.\<close>

definition delta_days :: "datetime \<Rightarrow> datetime \<Rightarrow> int" where
  "delta_days a b = (microseconds a - microseconds b) div 86400000000"

section \<open>The scheduler's state\<close>

text \<open>
  \<^verbatim>\<open>target_visits\<close> is a dictionary with the four fixed keys
  \<^verbatim>\<open>'hourly'\<close>, \<^verbatim>\<open>'daily'\<close>, \<^verbatim>\<open>'monthly'\<close> and \<^verbatim>\<open>'total'\<close>.

  A key of \<^verbatim>\<open>hourly_targets\<close> is the string
  \<^verbatim>\<open>day.strftime('%Y-%m-%d') + f'-{hour}'\<close>. The rendering of a date is
  one-to-one, so the key is modelled as the pair of the day number and the hour.
  The dictionary itself is an association list in insertion order, written with
  \<^const>\<open>AList.update\<close> and read with \<^const>\<open>map_of\<close>.
\<close>

record targets =
  hourly :: int
  daily :: int
  monthly :: int
  total :: int

type_synonym bucket_key = "int \<times> int"

record scheduler =
  target_visits :: targets
  start_date :: "datetime option"
  end_date :: "datetime option"
  active_hours :: "int list"
  active_days :: "int list"
  schedule_mode :: string
  hourly_visits :: int
  daily_visits :: int
  monthly_visits :: int
  total_visits :: int
  last_hour :: "int option"
  last_day :: "int option"
  last_month :: "int option"
  hourly_targets :: "(bucket_key \<times> int) list"

definition init_scheduler :: scheduler where
  "init_scheduler =
     \<lparr>target_visits = \<lparr>hourly = 0, daily = 0, monthly = 0, total = 0\<rparr>,
      start_date = None, end_date = None,
      active_hours = [0..23], active_days = [0..6],
      schedule_mode = ''even'',
      hourly_visits = 0, daily_visits = 0, monthly_visits = 0, total_visits = 0,
      last_hour = None, last_day = None, last_month = None,
      hourly_targets = []\<rparr>"

section \<open>The schedule gate\<close>

definition hour_key :: "datetime \<Rightarrow> bucket_key" where
  "hour_key now = (toordinal now, hour now)"

definition before_start :: "scheduler \<Rightarrow> datetime \<Rightarrow> bool" where
  "before_start s now = (case start_date s of None \<Rightarrow> False | Some sd \<Rightarrow> dt_less now sd)"

definition after_end :: "scheduler \<Rightarrow> datetime \<Rightarrow> bool" where
  "after_end s now = (case end_date s of None \<Rightarrow> False | Some ed \<Rightarrow> dt_less ed now)"

definition hourly_target_reached :: "scheduler \<Rightarrow> datetime \<Rightarrow> bool" where
  "hourly_target_reached s now =
     (case map_of (hourly_targets s) (hour_key now) of
        None \<Rightarrow> False
      | Some t \<Rightarrow> t \<le> hourly_visits s)"

definition reset_counters :: "datetime \<Rightarrow> scheduler \<Rightarrow> scheduler" where
  "reset_counters now s =
     (let s1 = (if last_hour s \<noteq> Some (hour now)
                then s\<lparr>hourly_visits := 0, last_hour := Some (hour now)\<rparr> else s);
          s2 = (if last_day s1 \<noteq> Some (day now)
                then s1\<lparr>daily_visits := 0, last_day := Some (day now)\<rparr> else s1);
          s3 = (if last_month s2 \<noteq> Some (month now)
                then s2\<lparr>monthly_visits := 0, last_month := Some (month now)\<rparr> else s2)
      in s3)"

text \<open>
  \<^verbatim>\<open>should_generate_traffic\<close> reads the clock once; the reading is the argument
  \<open>now\<close>. The result is the returned flag and the scheduler afterwards.
\<close>

definition should_generate_traffic :: "datetime \<Rightarrow> scheduler \<Rightarrow> bool \<times> scheduler" where
  "should_generate_traffic now s =
     (if before_start s now then (False, s)
      else if after_end s now then (False, s)
      else if hour now \<notin> set (active_hours s) \<or> weekday now \<notin> set (active_days s)
        then (False, s)
      else if hourly_target_reached s now then (False, s)
      else (True, reset_counters now s))"

definition record_visit :: "scheduler \<Rightarrow> scheduler" where
  "record_visit s =
     s\<lparr>hourly_visits := hourly_visits s + 1,
       daily_visits := daily_visits s + 1,
       monthly_visits := monthly_visits s + 1,
       total_visits := total_visits s + 1\<rparr>"

section \<open>Recalculating the schedule\<close>

text \<open>
  Python's \<^verbatim>\<open>/\<close> is division of binary floating-point numbers. The model
  computes in the rationals and applies a rounding function \<open>fl\<close> to the result of
  every floating-point operation; nothing is assumed about \<open>fl\<close> unless a theorem
  says so. Converting an integer to a float is taken to be exact, which it is up to
  \<open>2 ^ 53\<close>. \<^verbatim>\<open>math.ceil\<close> is \<^const>\<open>ceiling\<close>.

  The draws of \<^verbatim>\<open>random.randint\<close> are read from a tape \<open>rnd\<close>: the draw at
  position \<open>pos\<close> for \<^verbatim>\<open>randint(0, n - 1)\<close> is \<open>rnd pos mod n\<close>.
\<close>

datatype py_error = ZeroDivisionError | ValueError

definition month_end :: "datetime \<Rightarrow> datetime" where
  "month_end now =
     \<lparr>year = year now, month = month now, day = days_in_month (year now) (month now),
      hour = 23, minute = 59, second = 59, microsecond = 0\<rparr>"

definition day_active :: "int list \<Rightarrow> datetime \<Rightarrow> int \<Rightarrow> bool" where
  "day_active ads sd day_offset = (ordinal_weekday (toordinal sd + day_offset) \<in> set ads)"

definition day_hour_key :: "datetime \<Rightarrow> int \<Rightarrow> int \<Rightarrow> bucket_key" where
  "day_hour_key sd day_offset h = (toordinal sd + day_offset, h)"

definition count_active_days :: "int list \<Rightarrow> datetime \<Rightarrow> int list \<Rightarrow> int" where
  "count_active_days ads sd days_range = int (length (filter (day_active ads sd) days_range))"

text \<open>The four branches of \<^verbatim>\<open># Calculate targets based on priority\<close>.\<close>

definition derive_targets ::
  "(rat \<Rightarrow> rat) \<Rightarrow> int \<Rightarrow> int \<Rightarrow> int \<Rightarrow> targets \<Rightarrow> py_error + targets" where
  "derive_targets fl total_days active_days_count active_hours_count t =
     (let total_active_hours = active_days_count * active_hours_count in
      if monthly t > 0 then
        (if active_days_count = 0 \<or> active_hours_count = 0 then Inl ZeroDivisionError
         else
           let target_per_day = fl (of_int (monthly t) / of_int active_days_count);
               target_per_hour = fl (target_per_day / of_int active_hours_count)
           in Inr (t\<lparr>daily := \<lceil>target_per_day\<rceil>,
                     hourly := \<lceil>target_per_hour\<rceil>,
                     total := monthly t\<rparr>))
      else if total t > 0 then
        (if active_days_count = 0 \<or> active_hours_count = 0 then Inl ZeroDivisionError
         else
           let months = fl (of_int total_days / 30);
               target_per_month = fl (of_int (total t) / (if months = 0 then 1 else months));
               target_per_day = fl (of_int (total t) / of_int active_days_count);
               target_per_hour = fl (target_per_day / of_int active_hours_count)
           in Inr (t\<lparr>monthly := \<lceil>target_per_month\<rceil>,
                     daily := \<lceil>target_per_day\<rceil>,
                     hourly := \<lceil>target_per_hour\<rceil>\<rparr>))
      else if daily t > 0 then
        (if active_hours_count = 0 \<or> total_days = 0 then Inl ZeroDivisionError
         else
           let target_per_hour = fl (of_int (daily t) / of_int active_hours_count);
               target_per_month =
                 fl (fl (of_int (daily t) * fl (of_int active_days_count / of_int total_days)) * 30);
               target_total = daily t * active_days_count
           in Inr (t\<lparr>hourly := \<lceil>target_per_hour\<rceil>,
                     monthly := \<lceil>target_per_month\<rceil>,
                     total := target_total\<rparr>))
      else if hourly t > 0 then
        (if total_days = 0 then Inl ZeroDivisionError
         else
           let target_per_day = hourly t * active_hours_count;
               target_per_month =
                 fl (fl (of_int target_per_day * fl (of_int active_days_count / of_int total_days)) * 30);
               target_total = hourly t * total_active_hours
           in Inr (t\<lparr>daily := target_per_day,
                     monthly := \<lceil>target_per_month\<rceil>,
                     total := target_total\<rparr>))
      else Inr t)"

text \<open>Mode \<^verbatim>\<open>'even'\<close>: every bucket of an active day gets the hourly target.\<close>

definition even_targets ::
  "int list \<Rightarrow> int list \<Rightarrow> datetime \<Rightarrow> int list \<Rightarrow> int \<Rightarrow> (bucket_key \<times> int) list" where
  "even_targets ads ahs sd days_range hourly_target =
     fold (\<lambda>day_offset tbl.
             if day_active ads sd day_offset
             then fold (\<lambda>h. AList.update (day_hour_key sd day_offset h) hourly_target) ahs tbl
             else tbl)
          days_range []"

text \<open>
  Mode \<^verbatim>\<open>'random'\<close>: the loop \<^verbatim>\<open>while remaining > 0\<close> gives one unit to a drawn
  index; \<^verbatim>\<open>randint(0, -1)\<close> raises when the day has no hours. The result carries the
  position reached on the tape.
\<close>

function scatter :: "(nat \<Rightarrow> nat) \<Rightarrow> nat \<Rightarrow> int \<Rightarrow> int list \<Rightarrow> py_error + (int list \<times> nat)" where
  "scatter rnd pos remaining hourly_values =
     (if remaining > 0 then
        (if hourly_values = [] then Inl ValueError
         else
           let idx = rnd pos mod length hourly_values
           in scatter rnd (pos + 1) (remaining - 1)
                (hourly_values[idx := hourly_values ! idx + 1]))
      else Inr (hourly_values, pos))"
  by pat_completeness auto
termination
  by (relation "measure (\<lambda>(rnd, pos, remaining, hourly_values). nat remaining)") auto

fun random_targets ::
  "(nat \<Rightarrow> nat) \<Rightarrow> int list \<Rightarrow> int list \<Rightarrow> datetime \<Rightarrow> int \<Rightarrow> int list \<Rightarrow> nat \<Rightarrow>
   (bucket_key \<times> int) list \<Rightarrow> py_error option \<times> (bucket_key \<times> int) list" where
  "random_targets rnd ads ahs sd daily_target [] pos tbl = (None, tbl)"
| "random_targets rnd ads ahs sd daily_target (day_offset # days) pos tbl =
     (if day_active ads sd day_offset then
        (let hours_for_day = map (day_hour_key sd day_offset) ahs
         in case scatter rnd pos daily_target (replicate (length hours_for_day) 0) of
              Inl e \<Rightarrow> (Some e, tbl)
            | Inr (hourly_values, pos') \<Rightarrow>
                random_targets rnd ads ahs sd daily_target days pos'
                  (fold (\<lambda>(hour_key, v). AList.update hour_key v)
                        (zip hours_for_day hourly_values) tbl))
      else random_targets rnd ads ahs sd daily_target days pos tbl)"

text \<open>
  Modes \<^verbatim>\<open>'frontloaded'\<close> and \<^verbatim>\<open>'backloaded'\<close>: a weight per bucket, then each
  bucket's share of the total target, rounded up.
\<close>

definition frontloaded_weights ::
  "int list \<Rightarrow> int list \<Rightarrow> datetime \<Rightarrow> int list \<Rightarrow> int \<Rightarrow> (bucket_key \<times> int) list" where
  "frontloaded_weights ads ahs sd days_range total_active_hours =
     concat (map (\<lambda>day_offset.
                    if day_active ads sd day_offset
                    then map (\<lambda>h. (day_hour_key sd day_offset h,
                                    max 1 (total_active_hours - (day_offset * 24 + h)))) ahs
                    else [])
                 days_range)"

definition backloaded_weights ::
  "int list \<Rightarrow> int list \<Rightarrow> datetime \<Rightarrow> int list \<Rightarrow> (bucket_key \<times> int) list" where
  "backloaded_weights ads ahs sd days_range =
     concat (map (\<lambda>day_offset.
                    if day_active ads sd day_offset
                    then map (\<lambda>h. (day_hour_key sd day_offset h, (day_offset * 24 + h) + 1)) ahs
                    else [])
                 days_range)"

definition share :: "(rat \<Rightarrow> rat) \<Rightarrow> int \<Rightarrow> int \<Rightarrow> int \<Rightarrow> int" where
  "share fl total_weight total_target weight =
     \<lceil>fl (fl (of_int weight / of_int total_weight) * of_int total_target)\<rceil>"

definition weighted_targets ::
  "(rat \<Rightarrow> rat) \<Rightarrow> (bucket_key \<times> int) list \<Rightarrow> int \<Rightarrow>
   py_error option \<times> (bucket_key \<times> int) list" where
  "weighted_targets fl weights total_target =
     (let total_weight = sum_list (map snd weights) in
      if weights \<noteq> [] \<and> total_weight = 0 then (Some ZeroDivisionError, [])
      else (None, fold (\<lambda>(hour_key, weight).
                          AList.update hour_key (share fl total_weight total_target weight))
                       weights []))"

definition build_hourly_targets ::
  "(rat \<Rightarrow> rat) \<Rightarrow> (nat \<Rightarrow> nat) \<Rightarrow> string \<Rightarrow> int list \<Rightarrow> int list \<Rightarrow> datetime \<Rightarrow>
   int list \<Rightarrow> targets \<Rightarrow> py_error option \<times> (bucket_key \<times> int) list" where
  "build_hourly_targets fl rnd mode ads ahs sd days_range t =
     (if mode = ''even'' then (None, even_targets ads ahs sd days_range (hourly t))
      else if mode = ''random'' then random_targets rnd ads ahs sd (daily t) days_range 0 []
      else if mode = ''frontloaded'' then
        weighted_targets fl
          (frontloaded_weights ads ahs sd days_range
             (count_active_days ads sd days_range * int (length ahs)))
          (total t)
      else if mode = ''backloaded'' then
        weighted_targets fl (backloaded_weights ads ahs sd days_range) (total t)
      else (None, []))"

text \<open>
  \<^verbatim>\<open>calculate_schedule\<close>. The clock reading is \<open>now\<close>. An exception leaves the
  assignments made before it in place, so the result is the exception, if any, and the
  scheduler as the call leaves it.
\<close>

definition calculate_schedule ::
  "(rat \<Rightarrow> rat) \<Rightarrow> (nat \<Rightarrow> nat) \<Rightarrow> datetime \<Rightarrow> scheduler \<Rightarrow> py_error option \<times> scheduler" where
  "calculate_schedule fl rnd now s =
     (let ed = (case end_date s of None \<Rightarrow> month_end now | Some e \<Rightarrow> e);
          sd = (case start_date s of None \<Rightarrow> now | Some d \<Rightarrow> d);
          s1 = s\<lparr>end_date := Some ed, start_date := Some sd\<rparr>;
          total_days = delta_days ed sd + 1;
          days_range = [0..total_days - 1];
          active_days_count = count_active_days (active_days s) sd days_range;
          active_hours_count = int (length (active_hours s))
      in case derive_targets fl total_days active_days_count active_hours_count (target_visits s) of
           Inl e \<Rightarrow> (Some e, s1)
         | Inr t \<Rightarrow>
             (case build_hourly_targets fl rnd (schedule_mode s) (active_days s) (active_hours s)
                     sd days_range t of
                (err, tbl) \<Rightarrow> (err, s1\<lparr>target_visits := t, hourly_targets := tbl\<rparr>)))"

section \<open>The setters\<close>

definition put_target :: "string \<Rightarrow> int \<Rightarrow> targets \<Rightarrow> targets" where
  "put_target period v t =
     (if period = ''hourly'' then t\<lparr>hourly := v\<rparr>
      else if period = ''daily'' then t\<lparr>daily := v\<rparr>
      else if period = ''monthly'' then t\<lparr>monthly := v\<rparr>
      else if period = ''total'' then t\<lparr>total := v\<rparr>
      else t)"

definition set_target ::
  "(rat \<Rightarrow> rat) \<Rightarrow> (nat \<Rightarrow> nat) \<Rightarrow> datetime \<Rightarrow> string \<Rightarrow> int \<Rightarrow> scheduler \<Rightarrow>
   py_error option \<times> scheduler" where
  "set_target fl rnd now period v s =
     (if period \<in> set [''hourly'', ''daily'', ''monthly'', ''total'']
      then calculate_schedule fl rnd now (s\<lparr>target_visits := put_target period v (target_visits s)\<rparr>)
      else (None, s))"

definition valid_modes :: "string list" where
  "valid_modes = [''even'', ''random'', ''frontloaded'', ''backloaded'']"

definition set_schedule_mode ::
  "(rat \<Rightarrow> rat) \<Rightarrow> (nat \<Rightarrow> nat) \<Rightarrow> datetime \<Rightarrow> string \<Rightarrow> scheduler \<Rightarrow>
   py_error option \<times> scheduler" where
  "set_schedule_mode fl rnd now mode s =
     (if mode \<in> set valid_modes
      then calculate_schedule fl rnd now (s\<lparr>schedule_mode := mode\<rparr>)
      else (None, s))"

section \<open>The traffic bot\<close>

text \<open>
  A task is the dictionary \<^verbatim>\<open>{"type": "search", "keyword": k}\<close> or
  \<^verbatim>\<open>{"type": "visit", "url": u}\<close>; the queue is first in, first out.
\<close>

datatype task = Search string | Visit string

record stats =
  visits :: int
  successful_visits :: int
  failed_visits :: int
  captchas_solved :: int
  start_time :: "datetime option"
  last_visit :: "datetime option"
  vpn_switches :: int
  proxy_switches :: int
  adsense_impressions :: int
  social_traffic :: int
  search_traffic :: int
  direct_traffic :: int
  referral_traffic :: int
  mobile_visits :: int
  desktop_visits :: int
  tablet_visits :: int

text \<open>The field \<^verbatim>\<open>keywords\<close> is \<open>keyword_list\<close> here.\<close>

record bot =
  scheduler :: scheduler
  keyword_list :: "string list"
  urls :: "string list"
  running :: bool
  paused :: bool
  worker_threads :: "nat list"
  task_queue :: "task list"
  custom_tracking_urls :: "(string \<times> string) list"
  stats :: stats

definition init_stats :: stats where
  "init_stats =
     \<lparr>visits = 0, successful_visits = 0, failed_visits = 0, captchas_solved = 0,
      start_time = None, last_visit = None, vpn_switches = 0, proxy_switches = 0,
      adsense_impressions = 0, social_traffic = 0, search_traffic = 0, direct_traffic = 0,
      referral_traffic = 0, mobile_visits = 0, desktop_visits = 0, tablet_visits = 0\<rparr>"

definition init_bot :: "scheduler \<Rightarrow> bot" where
  "init_bot sch =
     \<lparr>scheduler = sch, keyword_list = [], urls = [], running = False, paused = False,
      worker_threads = [], task_queue = [], custom_tracking_urls = [], stats = init_stats\<rparr>"

subsection \<open>The collaborators\<close>

text \<open>
  The browser, the VPN manager, the CAPTCHA solver, the behaviour profile, the clock
  and the random generator are outside the bot. What they answer during one search or
  one visit is the record \<open>env\<close>; a call that can raise answers \<open>Raises\<close>.
  \<^verbatim>\<open>get_driver\<close> catches its own exceptions and answers \<^verbatim>\<open>None\<close>, here
  \<open>driver_created = False\<close>. \<^verbatim>\<open>disconnect_all_vpns\<close>, called when the
  \<^verbatim>\<open>try\<close> statement is left, catches its own exceptions too and touches the VPN
  manager only, so it does not appear below.
\<close>

text \<open>
  Modelled from the spec: the body of \<^verbatim>\<open>BrowserManager.close_driver\<close> is not
  among the sources. It is the spec's \<^verbatim>\<open>Close(session)\<close>, an operation with no
  error result: it returns and leaves the bot's fields alone, so it does not appear
  below either.
\<close>

datatype 'a outcome = Returns 'a | Raises

datatype link = Link "string option" | Stale_link

record interaction =
  ads_found :: bool
  interaction_raises :: bool

datatype subpage = Click_raises | Subpage interaction

record env =
  clock_gate :: datetime
  clock_visit :: datetime
  vpn_providers_usable :: bool
  random_above_half :: bool
  random_vpn :: "bool outcome"
  connect_vpn :: "unit outcome"
  proxies_usable :: bool
  random_proxy :: "unit outcome"
  device_type :: string
  driver_created :: bool
  referrer_type :: string
  page_load :: "unit outcome"
  page_title :: "string outcome"
  captcha_shown :: "bool outcome"
  captcha_solver :: "bool outcome"
  bounce :: bool
  bounce_scroll :: "unit outcome"
  main_interaction :: interaction
  subpages :: "subpage list"
  links_primary :: "link list option"
  links_fallback :: "link list option"

definition check_schedule :: "datetime \<Rightarrow> bot \<Rightarrow> bool \<times> bot" where
  "check_schedule now b =
     (case should_generate_traffic now (scheduler b) of
        (ok, sch) \<Rightarrow> (ok, b\<lparr>scheduler := sch\<rparr>))"

text \<open>The choice between VPN and proxy, shared by a search and a visit.\<close>

definition choose_network :: "env \<Rightarrow> stats \<Rightarrow> stats \<times> unit outcome" where
  "choose_network e st =
     (case (if vpn_providers_usable e \<and> random_above_half e then
              (case random_vpn e of
                 Raises \<Rightarrow> (st, Raises)
               | Returns found \<Rightarrow>
                   if found then
                     (case connect_vpn e of
                        Raises \<Rightarrow> (st, Raises)
                      | Returns _ \<Rightarrow> (st\<lparr>vpn_switches := vpn_switches st + 1\<rparr>, Returns True))
                   else (st, Returns False))
            else (st, Returns False)) of
        (st1, Raises) \<Rightarrow> (st1, Raises)
      | (st1, Returns use_vpn) \<Rightarrow>
          if \<not> use_vpn \<and> proxies_usable e then
            (case random_proxy e of
               Raises \<Rightarrow> (st1, Raises)
             | Returns _ \<Rightarrow> (st1\<lparr>proxy_switches := proxy_switches st1 + 1\<rparr>, Returns ()))
          else (st1, Returns ()))"

definition solve_captcha :: "env \<Rightarrow> stats \<Rightarrow> stats \<times> unit outcome" where
  "solve_captcha e st =
     (case captcha_shown e of
        Raises \<Rightarrow> (st, Raises)
      | Returns shown \<Rightarrow>
          if shown then
            (case captcha_solver e of
               Raises \<Rightarrow> (st, Raises)
             | Returns solved \<Rightarrow>
                 (if solved then st\<lparr>captchas_solved := captchas_solved st + 1\<rparr> else st,
                  Returns ()))
          else (st, Returns ()))"

subsection \<open>Searching\<close>

fun contains :: "string \<Rightarrow> string \<Rightarrow> bool" where
  "contains needle [] = (needle = [])"
| "contains needle (c # cs) = (take (length needle) (c # cs) = needle \<or> contains needle cs)"

definition found_links :: "env \<Rightarrow> link list" where
  "found_links e =
     (let links = (case links_primary e of None \<Rightarrow> [] | Some ls \<Rightarrow> ls)
      in if links = [] then (case links_fallback e of None \<Rightarrow> [] | Some ls \<Rightarrow> ls) else links)"

fun extract_results :: "link list \<Rightarrow> string list" where
  "extract_results [] = []"
| "extract_results (Stale_link # ls) = extract_results ls"
| "extract_results (Link None # ls) = extract_results ls"
| "extract_results (Link (Some href) # ls) =
     (if href \<noteq> [] \<and> \<not> contains ''google.com'' href
      then href # extract_results ls else extract_results ls)"

text \<open>The \<^verbatim>\<open>try\<close> block of \<^verbatim>\<open>search_google\<close>: the results so far, and how it ended.\<close>

definition search_attempt :: "env \<Rightarrow> bot \<Rightarrow> bot \<times> string list \<times> unit outcome" where
  "search_attempt e b =
     (case choose_network e (stats b) of
        (st1, Raises) \<Rightarrow> (b\<lparr>stats := st1\<rparr>, [], Raises)
      | (st1, Returns _) \<Rightarrow>
          if \<not> driver_created e then (b\<lparr>stats := st1\<rparr>, [], Returns ())
          else
            (case page_load e of
               Raises \<Rightarrow> (b\<lparr>stats := st1\<rparr>, [], Raises)
             | Returns _ \<Rightarrow>
                 (case solve_captcha e st1 of
                    (st2, Raises) \<Rightarrow> (b\<lparr>stats := st2\<rparr>, [], Raises)
                  | (st2, Returns _) \<Rightarrow>
                      (b\<lparr>stats := st2, scheduler := record_visit (scheduler b)\<rparr>,
                       extract_results (found_links e), Returns ()))))"

definition search_google :: "env \<Rightarrow> string \<Rightarrow> bot \<Rightarrow> string list \<times> bot" where
  "search_google e keyword b =
     (case check_schedule (clock_gate e) b of
        (ok, b1) \<Rightarrow>
          if \<not> ok then ([], b1)
          else (case search_attempt e b1 of (b2, results, _) \<Rightarrow> (results, b2)))"

subsection \<open>Visiting\<close>

definition get_tracking_url :: "bot \<Rightarrow> string \<Rightarrow> string" where
  "get_tracking_url b url =
     (case map_of (custom_tracking_urls b) url of None \<Rightarrow> url | Some tracking_url \<Rightarrow> tracking_url)"

definition startswith :: "string \<Rightarrow> string \<Rightarrow> bool" where
  "startswith prefix str = (take (length prefix) str = prefix)"

definition count_device :: "string \<Rightarrow> stats \<Rightarrow> stats" where
  "count_device dev st =
     (if dev = ''desktop'' then st\<lparr>desktop_visits := desktop_visits st + 1\<rparr>
      else if dev = ''mobile'' then st\<lparr>mobile_visits := mobile_visits st + 1\<rparr>
      else if dev = ''tablet'' then st\<lparr>tablet_visits := tablet_visits st + 1\<rparr>
      else st)"

definition count_referrer :: "string \<Rightarrow> stats \<Rightarrow> stats" where
  "count_referrer ref st =
     (if startswith ''search_'' ref then st\<lparr>search_traffic := search_traffic st + 1\<rparr>
      else if startswith ''social_'' ref then st\<lparr>social_traffic := social_traffic st + 1\<rparr>
      else if ref = ''direct'' then st\<lparr>direct_traffic := direct_traffic st + 1\<rparr>
      else if ref = ''referral'' then st\<lparr>referral_traffic := referral_traffic st + 1\<rparr>
      else st)"

text \<open>
  \<^verbatim>\<open>_interact_with_page\<close> counts an AdSense impression when it finds ads and then
  interacts; a scroll that fails raises. In the loop over the subpages every exception
  is caught and the loop goes on.
\<close>

definition interact_with_page :: "interaction \<Rightarrow> stats \<Rightarrow> stats \<times> unit outcome" where
  "interact_with_page i st =
     (let st1 = (if ads_found i then st\<lparr>adsense_impressions := adsense_impressions st + 1\<rparr> else st)
      in (st1, if interaction_raises i then Raises else Returns ()))"

fun visit_subpages :: "subpage list \<Rightarrow> stats \<Rightarrow> stats" where
  "visit_subpages [] st = st"
| "visit_subpages (Click_raises # ps) st = visit_subpages ps st"
| "visit_subpages (Subpage i # ps) st = visit_subpages ps (fst (interact_with_page i st))"

text \<open>The \<^verbatim>\<open>try\<close> block of \<^verbatim>\<open>visit_url\<close>: the bot afterwards, and the value returned or the exception.\<close>

definition visit_attempt :: "env \<Rightarrow> bot \<Rightarrow> bot \<times> bool outcome" where
  "visit_attempt e b =
     (case choose_network e (stats b) of
        (st1, Raises) \<Rightarrow> (b\<lparr>stats := st1\<rparr>, Raises)
      | (st1, Returns _) \<Rightarrow>
          let st2 = count_device (device_type e) st1 in
          if \<not> driver_created e
          then (b\<lparr>stats := st2\<lparr>failed_visits := failed_visits st2 + 1\<rparr>\<rparr>, Returns False)
          else
            let st3 = count_referrer (referrer_type e) st2 in
            (case page_load e of
               Raises \<Rightarrow> (b\<lparr>stats := st3\<rparr>, Raises)
             | Returns _ \<Rightarrow>
                 (case page_title e of
                    Raises \<Rightarrow> (b\<lparr>stats := st3\<rparr>, Raises)
                  | Returns title \<Rightarrow>
                      if title = []
                      then (b\<lparr>stats := st3\<lparr>failed_visits := failed_visits st3 + 1\<rparr>\<rparr>,
                            Returns False)
                      else
                        (case solve_captcha e st3 of
                           (st4, Raises) \<Rightarrow> (b\<lparr>stats := st4\<rparr>, Raises)
                         | (st4, Returns _) \<Rightarrow>
                             if bounce e then
                               (case bounce_scroll e of
                                  Raises \<Rightarrow> (b\<lparr>stats := st4\<rparr>, Raises)
                                | Returns _ \<Rightarrow>
                                    (b\<lparr>stats := st4\<lparr>successful_visits := successful_visits st4 + 1\<rparr>,
                                       scheduler := record_visit (scheduler b)\<rparr>,
                                     Returns True))
                             else
                               (case interact_with_page (main_interaction e) st4 of
                                  (st5, Raises) \<Rightarrow> (b\<lparr>stats := st5\<rparr>, Raises)
                                | (st5, Returns _) \<Rightarrow>
                                    let st6 = visit_subpages (subpages e) st5 in
                                    (b\<lparr>stats := st6\<lparr>successful_visits := successful_visits st6 + 1\<rparr>,
                                       scheduler := record_visit (scheduler b)\<rparr>,
                                     Returns True))))))"

text \<open>
  \<^verbatim>\<open>visit_url\<close>, in the two parts in which it touches the counters. The first
  part is everything before the \<^verbatim>\<open>try\<close> statement: the schedule check, the
  tracking URL, \<^verbatim>\<open>self.stats["visits"] += 1\<close> and the time of the visit. The
  second part is the \<^verbatim>\<open>try\<close> statement with its handler, which ends with the
  count of the success or of the failure; the browser works for seconds or minutes in
  between. The tracking URL only chooses the page the browser loads, whose answers are
  in \<open>e\<close>.
\<close>

definition visit_begin :: "env \<Rightarrow> string \<Rightarrow> bot \<Rightarrow> bool \<times> bot" where
  "visit_begin e url b =
     (case check_schedule (clock_gate e) b of
        (ok, b1) \<Rightarrow>
          if \<not> ok then (False, b1)
          else (True, b1\<lparr>stats := (stats b1)\<lparr>visits := visits (stats b1) + 1,
                                                 last_visit := Some (clock_visit e)\<rparr>\<rparr>))"

definition visit_finish :: "env \<Rightarrow> bot \<Rightarrow> bool \<times> bot" where
  "visit_finish e b2 =
     (case visit_attempt e b2 of
        (b3, Returns r) \<Rightarrow> (r, b3)
      | (b3, Raises) \<Rightarrow>
          (False, b3\<lparr>stats := (stats b3)\<lparr>failed_visits := failed_visits (stats b3) + 1\<rparr>\<rparr>))"

definition visit_url :: "env \<Rightarrow> string \<Rightarrow> bot \<Rightarrow> bool \<times> bot" where
  "visit_url e url b =
     (case visit_begin e url b of
        (ok, b2) \<Rightarrow> if \<not> ok then (False, b2) else visit_finish e b2)"

subsection \<open>The worker pool\<close>

text \<open>
  One pass of \<^verbatim>\<open>while self.running and not self.paused\<close>: the body, run when the
  condition holds. \<^verbatim>\<open>get(timeout=1)\<close> on an empty queue raises \<^verbatim>\<open>queue.Empty\<close>,
  which is passed over.
\<close>

definition worker_body :: "env \<Rightarrow> bot \<Rightarrow> bot" where
  "worker_body e b =
     (case task_queue b of
        [] \<Rightarrow> b
      | t # rest \<Rightarrow>
          let b1 = b\<lparr>task_queue := rest\<rparr> in
          (case t of
             Search keyword \<Rightarrow>
               (case search_google e keyword b1 of
                  (results, b2) \<Rightarrow> b2\<lparr>task_queue := task_queue b2 @ map Visit (take 3 results)\<rparr>)
           | Visit url \<Rightarrow> snd (visit_url e url b1)))"

definition queue_tasks :: "bot \<Rightarrow> bot" where
  "queue_tasks b = b\<lparr>task_queue := task_queue b @ map Visit (urls b) @ map Search (keyword_list b)\<rparr>"

text \<open>
  A thread that runs \<^verbatim>\<open>worker\<close> is at the head of its loop or has left it. The pool
  is the bot and every thread started so far; \<open>worker_threads\<close> of the bot holds the
  indices of the threads it still knows.
\<close>

datatype thread = In_loop | Finished

record pool =
  the_bot :: bot
  threads :: "thread list"

definition start :: "datetime \<Rightarrow> nat \<Rightarrow> pool \<Rightarrow> pool" where
  "start now num_workers p =
     (let b = the_bot p in
      if running b then p
      else
        let b1 = b\<lparr>running := True, paused := False,
                   stats := (stats b)\<lparr>start_time := Some now\<rparr>,
                   worker_threads :=
                     worker_threads b @ [length (threads p) ..< length (threads p) + num_workers]\<rparr>
        in \<lparr>the_bot = queue_tasks b1, threads = threads p @ replicate num_workers In_loop\<rparr>)"

definition pause :: "bot \<Rightarrow> bot" where
  "pause b = (if \<not> running b \<or> paused b then b else b\<lparr>paused := True\<rparr>)"

definition resume :: "bot \<Rightarrow> bot" where
  "resume b = (if \<not> running b \<or> \<not> paused b then b else b\<lparr>paused := False\<rparr>)"

definition stop :: "bot \<Rightarrow> bot" where
  "stop b = (if \<not> running b then b else b\<lparr>running := False, paused := False, worker_threads := []\<rparr>)"

definition worker_pass :: "nat \<Rightarrow> env \<Rightarrow> pool \<Rightarrow> pool" where
  "worker_pass i e p =
     (if i < length (threads p) \<and> threads p ! i = In_loop then
        (if running (the_bot p) \<and> \<not> paused (the_bot p)
         then p\<lparr>the_bot := worker_body e (the_bot p)\<rparr>
         else p\<lparr>threads := (threads p)[i := Finished]\<rparr>)
      else p)"

text \<open>What happens to a pool: the calls of the control plane and the passes of the workers, in some order.\<close>

datatype event = Start datetime nat | Pause | Resume | Stop | Worker nat env

fun step :: "event \<Rightarrow> pool \<Rightarrow> pool" where
  "step (Start now n) p = start now n p"
| "step Pause p = p\<lparr>the_bot := pause (the_bot p)\<rparr>"
| "step Resume p = p\<lparr>the_bot := resume (the_bot p)\<rparr>"
| "step Stop p = p\<lparr>the_bot := stop (the_bot p)\<rparr>"
| "step (Worker i e) p = worker_pass i e p"

definition run :: "event list \<Rightarrow> pool \<Rightarrow> pool" where
  "run evs p = fold step evs p"

section \<open>Example inputs\<close>

text \<open>
  A rounding that changes nothing, right wherever every quotient and product is a
  number that binary floating point represents, and a tape of zero draws.
\<close>

definition exact :: "rat \<Rightarrow> rat" where
  "exact x = x"

definition no_draws :: "nat \<Rightarrow> nat" where
  "no_draws pos = 0"

definition at_hour :: "int \<Rightarrow> int \<Rightarrow> int \<Rightarrow> int \<Rightarrow> datetime" where
  "at_hour y m d h =
     \<lparr>year = y, month = m, day = d, hour = h, minute = 0, second = 0, microsecond = 0\<rparr>"

text \<open>Monday 1 January 2024 from 9:00 to 23:00, with the hours 9 and 10 active.\<close>

definition one_day_campaign :: scheduler where
  "one_day_campaign =
     init_scheduler\<lparr>start_date := Some (at_hour 2024 1 1 9),
                    end_date := Some (at_hour 2024 1 1 23),
                    active_hours := [9, 10]\<rparr>"

text \<open>
  The same campaign after \<^verbatim>\<open>set_target('hourly', 5)\<close>, and then after a permitted
  check at 9:00 followed by five recorded visits.
\<close>

definition five_per_hour :: scheduler where
  "five_per_hour = snd (set_target exact no_draws (at_hour 2024 1 1 9) ''hourly'' 5 one_day_campaign)"

definition quota_used_at_nine :: scheduler where
  "quota_used_at_nine =
     (record_visit ^^ 5) (snd (should_generate_traffic (at_hour 2024 1 1 9) five_per_hour))"

text \<open>The one-day campaign with nothing but a monthly target of 48.\<close>

definition monthly_campaign :: scheduler where
  "monthly_campaign =
     one_day_campaign\<lparr>target_visits := \<lparr>hourly = 0, daily = 0, monthly = 48, total = 0\<rparr>\<rparr>"

text \<open>The one-day campaign recalculated at 9:00 with all four targets zero.\<close>

definition zero_targets_schedule :: scheduler where
  "zero_targets_schedule =
     snd (calculate_schedule exact no_draws (at_hour 2024 1 1 9) one_day_campaign)"

text \<open>
  Fifteen days from 1 January 2024, the hour 0 of every day active, mode \<^verbatim>\<open>'even'\<close>,
  and nothing but a total target of 30; then the scheduler after one recalculation and
  after two.
\<close>

definition fortnight_campaign :: scheduler where
  "fortnight_campaign =
     init_scheduler\<lparr>start_date := Some (at_hour 2024 1 1 0),
                    end_date := Some (at_hour 2024 1 15 0),
                    active_hours := [0],
                    target_visits := \<lparr>hourly = 0, daily = 0, monthly = 0, total = 30\<rparr>\<rparr>"

definition fortnight_once :: scheduler where
  "fortnight_once = snd (calculate_schedule exact no_draws (at_hour 2024 1 1 0) fortnight_campaign)"

definition fortnight_twice :: scheduler where
  "fortnight_twice = snd (calculate_schedule exact no_draws (at_hour 2024 1 1 0) fortnight_once)"

text \<open>
  One day with a monthly target of 8: front-loaded over the hours 0, 2, 3 and 4, and
  back-loaded over the hours 0 and 2. The weights add up to 8 and to 4.
\<close>

definition frontloaded_campaign :: scheduler where
  "frontloaded_campaign =
     init_scheduler\<lparr>start_date := Some (at_hour 2024 1 1 0),
                    end_date := Some (at_hour 2024 1 1 23),
                    active_hours := [0, 2, 3, 4],
                    schedule_mode := ''frontloaded'',
                    target_visits := \<lparr>hourly = 0, daily = 0, monthly = 8, total = 0\<rparr>\<rparr>"

definition backloaded_campaign :: scheduler where
  "backloaded_campaign =
     init_scheduler\<lparr>start_date := Some (at_hour 2024 1 1 0),
                    end_date := Some (at_hour 2024 1 1 23),
                    active_hours := [0, 2],
                    schedule_mode := ''backloaded'',
                    target_visits := \<lparr>hourly = 0, daily = 0, monthly = 8, total = 0\<rparr>\<rparr>"

text \<open>The one-day campaign with an hourly target of 5 given directly.\<close>

definition hourly_campaign :: scheduler where
  "hourly_campaign =
     one_day_campaign\<lparr>target_visits := \<lparr>hourly = 5, daily = 0, monthly = 0, total = 0\<rparr>\<rparr>"

text \<open>
  A search or a visit in which nothing goes wrong: no VPN and no proxy, a driver, a page
  with a title and no CAPTCHA, a bounce; the search finds five links. The clock stands
  at 9:00 on the campaign's day.
\<close>

definition calm_env :: env where
  "calm_env =
     \<lparr>clock_gate = at_hour 2024 1 1 9, clock_visit = at_hour 2024 1 1 9,
      vpn_providers_usable = False, random_above_half = False,
      random_vpn = Returns False, connect_vpn = Returns (),
      proxies_usable = False, random_proxy = Returns (),
      device_type = ''desktop'', driver_created = True, referrer_type = ''direct'',
      page_load = Returns (), page_title = Returns ''Example'',
      captcha_shown = Returns False, captcha_solver = Returns False,
      bounce = True, bounce_scroll = Returns (),
      main_interaction = \<lparr>ads_found = False, interaction_raises = False\<rparr>,
      subpages = [],
      links_primary = Some [Link (Some ''http://a.example''), Link (Some ''http://b.example''),
                            Link (Some ''http://c.example''), Link (Some ''http://d.example''),
                            Link (Some ''http://e.example'')],
      links_fallback = None\<rparr>"

text \<open>
  A bot on the one-day campaign, before any recalculation; pools with one keyword and
  with two URLs.
\<close>

definition calm_bot :: bot where
  "calm_bot = init_bot one_day_campaign"

definition keyword_pool :: pool where
  "keyword_pool = \<lparr>the_bot = calm_bot\<lparr>keyword_list := [''isabelle'']\<rparr>, threads = []\<rparr>"

definition url_pool :: pool where
  "url_pool =
     \<lparr>the_bot = calm_bot\<lparr>urls := [''http://a.example'', ''http://b.example'']\<rparr>, threads = []\<rparr>"

text \<open>
  The pool with two URLs, started with one worker: the worker makes the first visit,
  \<^verbatim>\<open>pause()\<close> is called during it, the worker comes back to the test of its loop,
  \<^verbatim>\<open>resume()\<close> is called, and the worker is given two more turns. And the same
  without the pause.
\<close>

definition paused_and_resumed :: pool where
  "paused_and_resumed =
     run [Start (at_hour 2024 1 1 9) 1, Worker 0 calm_env, Pause, Worker 0 calm_env, Resume,
          Worker 0 calm_env, Worker 0 calm_env] url_pool"

definition never_paused :: pool where
  "never_paused =
     run [Start (at_hour 2024 1 1 9) 1, Worker 0 calm_env, Worker 0 calm_env] url_pool"

text \<open>A tape on which every draw is 1, and the one-day campaign in mode \<^verbatim>\<open>'random'\<close> with a monthly target of 4.\<close>

definition all_ones :: "nat \<Rightarrow> nat" where
  "all_ones pos = 1"

definition random_campaign :: scheduler where
  "random_campaign =
     one_day_campaign\<lparr>schedule_mode := ''random'',
                      target_visits := \<lparr>hourly = 0, daily = 0, monthly = 4, total = 0\<rparr>\<rparr>"

definition random_once :: scheduler where
  "random_once = snd (calculate_schedule exact no_draws (at_hour 2024 1 1 9) random_campaign)"

definition random_twice :: scheduler where
  "random_twice = snd (calculate_schedule exact all_ones (at_hour 2024 1 1 9) random_once)"

text \<open>
  Two workers on the same bot: the first starts a visit, the second starts a visit
  while the first one's browser is at work, then the first visit ends.
\<close>

definition two_visits_started :: bot where
  "two_visits_started =
     snd (visit_begin calm_env ''http://b.example''
            (snd (visit_begin calm_env ''http://a.example'' calm_bot)))"

definition first_visit_finished :: bot where
  "first_visit_finished = snd (visit_finish calm_env two_visits_started)"

section \<open>The schedule gate: properties\<close>

lemma record_visit_funpow:
  "(record_visit ^^ n) s =
     s\<lparr>hourly_visits := hourly_visits s + int n,
       daily_visits := daily_visits s + int n,
       monthly_visits := monthly_visits s + int n,
       total_visits := total_visits s + int n\<rparr>"
  by (induction n) (simp_all add: record_visit_def)

text \<open>A check that is rejected leaves the scheduler as it was, markers and counters included.\<close>

lemma rejection_changes_nothing:
  "\<not> fst (should_generate_traffic now s) \<Longrightarrow> snd (should_generate_traffic now s) = s"
  by (auto simp: should_generate_traffic_def split: if_splits)

text \<open>
  C1. The claim asks for the rollover on every call, the rejected ones too. The code
  resets the counters only on the path that returns \<^verbatim>\<open>True\<close>: every
  \<^verbatim>\<open>return False\<close> comes before the block
  \<^verbatim>\<open># Reset counters if the hour/day/month has changed\<close>. With an hourly target
  of 5 for the buckets of 9:00 and 10:00 and five visits recorded during the hour of
  9:00, the check at 10:00 compares the stale counter 5 with the new bucket's target,
  returns \<^verbatim>\<open>False\<close> and leaves \<open>hourly_visits = 5\<close> and \<open>last_hour = 9\<close>: the
  hour boundary was crossed and nothing was reset.
\<close>

theorem C1_rejection_skips_rollover:
  "hourly_targets five_per_hour = [((738886, 9), 5), ((738886, 10), 5)]
   \<and> fst (should_generate_traffic (at_hour 2024 1 1 9) five_per_hour)
   \<and> hourly_visits quota_used_at_nine = 5
   \<and> last_hour quota_used_at_nine = Some 9
   \<and> hour (at_hour 2024 1 1 10) = 10
   \<and> hour_key (at_hour 2024 1 1 10) = (738886, 10)
   \<and> should_generate_traffic (at_hour 2024 1 1 10) quota_used_at_nine = (False, quota_used_at_nine)"
  by code_simp

theorem C1_rejection_skips_rollover_witness:
  "fst (should_generate_traffic (at_hour 2024 1 1 10) quota_used_at_nine) = False
   \<and> hourly_visits (snd (should_generate_traffic (at_hour 2024 1 1 10) quota_used_at_nine)) = 5
   \<and> last_hour (snd (should_generate_traffic (at_hour 2024 1 1 10) quota_used_at_nine)) = Some 9"
  using C1_rejection_skips_rollover by simp

text \<open>
  C4. Whatever the counters and the table hold, the gate returns \<^verbatim>\<open>False\<close> when
  \<open>now\<close> is before the start date or after the end date, when its hour is not an
  active hour, or when its weekday is not an active day.
\<close>

theorem C4_gate_rejects_outside_window:
  assumes "(\<exists>sd. start_date s = Some sd \<and> dt_less now sd)
         \<or> (\<exists>ed. end_date s = Some ed \<and> dt_less ed now)
         \<or> hour now \<notin> set (active_hours s)
         \<or> weekday now \<notin> set (active_days s)"
  shows "fst (should_generate_traffic now s) = False"
  using assms
  by (auto simp: should_generate_traffic_def before_start_def after_end_def)

theorem C4_gate_rejects_outside_window_witness:
  "hour (at_hour 2024 1 1 11) \<notin> set (active_hours one_day_campaign)
   \<and> fst (should_generate_traffic (at_hour 2024 1 1 11) one_day_campaign) = False"
  using C4_gate_rejects_outside_window [of one_day_campaign "at_hour 2024 1 1 11"]
  by (simp add: one_day_campaign_def at_hour_def)

text \<open>
  C5. \<^verbatim>\<open>record_visit\<close> adds one to each of the four counters, so five calls on a
  fresh hourly counter bring it to 5. When the table has the target \<open>t\<close> for the
  bucket of \<open>now\<close> and \<open>hourly_visits\<close> has reached \<open>t\<close>, the gate returns
  \<^verbatim>\<open>False\<close> and changes nothing, so every further check in that bucket is rejected
  as long as the counter is not reset. When the table has no entry for the bucket, the
  answer is that of the window and calendar checks alone.
\<close>

theorem C5_hourly_quota:
  "hourly_visits (record_visit s) = hourly_visits s + 1
   \<and> daily_visits (record_visit s) = daily_visits s + 1
   \<and> monthly_visits (record_visit s) = monthly_visits s + 1
   \<and> total_visits (record_visit s) = total_visits s + 1
   \<and> hourly_targets (record_visit s) = hourly_targets s
   \<and> (hourly_visits s = 0 \<longrightarrow> hourly_visits ((record_visit ^^ 5) s) = 5)
   \<and> (map_of (hourly_targets s) (hour_key now) = Some t \<and> t \<le> hourly_visits s
        \<longrightarrow> should_generate_traffic now s = (False, s))
   \<and> (map_of (hourly_targets s) (hour_key now) = None
        \<longrightarrow> fst (should_generate_traffic now s)
              = (\<not> before_start s now \<and> \<not> after_end s now
                 \<and> hour now \<in> set (active_hours s) \<and> weekday now \<in> set (active_days s)))"
  by (simp add: record_visit_def record_visit_funpow should_generate_traffic_def
        hourly_target_reached_def)

theorem C5_hourly_quota_witness:
  "map_of (hourly_targets quota_used_at_nine) (hour_key (at_hour 2024 1 1 9)) = Some 5
   \<and> 5 \<le> hourly_visits quota_used_at_nine
   \<and> should_generate_traffic (at_hour 2024 1 1 9) quota_used_at_nine = (False, quota_used_at_nine)"
proof -
  have "map_of (hourly_targets quota_used_at_nine) (hour_key (at_hour 2024 1 1 9)) = Some 5"
    by code_simp
  moreover have "5 \<le> hourly_visits quota_used_at_nine"
    by code_simp
  ultimately show ?thesis
    using C5_hourly_quota [of quota_used_at_nine "at_hour 2024 1 1 9" 5] by blast
qed

section \<open>Recalculating the schedule: properties\<close>

subsection \<open>What a successful recalculation computed\<close>

lemma set_update_subset: "set (AList.update k v al) \<subseteq> insert (k, v) (set al)"
  by (induction al) auto

lemma calculate_schedule_success:
  assumes "calculate_schedule fl rnd now s = (None, s')"
    and "start_date s' = Some sd" and "end_date s' = Some ed"
  shows "derive_targets fl (delta_days ed sd + 1)
           (count_active_days (active_days s) sd [0..delta_days ed sd])
           (int (length (active_hours s))) (target_visits s) = Inr (target_visits s')"
    and "build_hourly_targets fl rnd (schedule_mode s) (active_days s) (active_hours s) sd
           [0..delta_days ed sd] (target_visits s') = (None, hourly_targets s')"
    and "hourly_visits s' = hourly_visits s"
  using assms
  by (auto simp: calculate_schedule_def Let_def split: sum.splits prod.splits)

lemma derive_targets_again:
  assumes "0 < monthly t \<or> (monthly t \<le> 0 \<and> total t \<le> 0 \<and> daily t \<le> 0 \<and> hourly t \<le> 0)"
    and "derive_targets fl td adc ahc t = Inr t'"
  shows "derive_targets fl td adc ahc t' = Inr t'"
  using assms by (auto simp: derive_targets_def Let_def split: if_splits)

lemma scatter_nothing: "remaining \<le> 0 \<Longrightarrow> scatter rnd pos remaining vals = Inr (vals, pos)"
  by (subst scatter.simps) simp

lemma random_targets_tape:
  assumes "daily_target \<le> 0"
  shows "random_targets rnd ads ahs sd daily_target ds pos tbl
           = random_targets rnd' ads ahs sd daily_target ds pos' tbl"
  using assms
  by (induction ds arbitrary: pos pos' tbl) (simp_all add: scatter_nothing Let_def)

lemma build_hourly_targets_tape:
  "mode \<noteq> ''random'' \<or> daily t \<le> 0 \<Longrightarrow>
   build_hourly_targets fl rnd mode ads ahs sd ds t = build_hourly_targets fl rnd' mode ads ahs sd ds t"
  using random_targets_tape [of "daily t" rnd ads ahs sd ds 0 "[]" rnd' 0]
  by (auto simp: build_hourly_targets_def)

lemma gate_rejects_zero_bucket:
  assumes "map_of (hourly_targets s) (hour_key now) = Some 0" and "0 \<le> hourly_visits s"
  shows "fst (should_generate_traffic now s) = False"
  using assms by (simp add: should_generate_traffic_def hourly_target_reached_def)

lemma gate_without_bucket:
  assumes "map_of (hourly_targets s) (hour_key now) = None"
  shows "fst (should_generate_traffic now s)
           = (\<not> before_start s now \<and> \<not> after_end s now
              \<and> hour now \<in> set (active_hours s) \<and> weekday now \<in> set (active_days s))"
  using assms by (simp add: should_generate_traffic_def hourly_target_reached_def)

subsection \<open>The table of mode even\<close>

lemma even_targets_values_aux:
  assumes "\<forall>e\<in>set tbl. snd e = c"
  shows "\<forall>e\<in>set (fold (\<lambda>h. AList.update (f h) c) ahs tbl). snd e = c"
  using assms
proof (induction ahs arbitrary: tbl)
  case Nil
  then show ?case by simp
next
  case (Cons h ahs)
  have "\<forall>e\<in>set (AList.update (f h) c tbl). snd e = c"
    using Cons.prems set_update_subset[of "f h" c tbl] by auto
  then show ?case using Cons.IH by simp
qed

lemma even_targets_values_fold:
  assumes "\<forall>e\<in>set tbl. snd e = c"
  shows "\<forall>e\<in>set (fold (\<lambda>day_offset tbl.
             if day_active ads sd day_offset
             then fold (\<lambda>h. AList.update (day_hour_key sd day_offset h) c) ahs tbl
             else tbl) ds tbl). snd e = c"
  using assms
proof (induction ds arbitrary: tbl)
  case Nil
  then show ?case by simp
next
  case (Cons d ds)
  show ?case
    using Cons.IH Cons.prems even_targets_values_aux[of tbl c "day_hour_key sd d" ahs]
    by simp
qed

lemma even_targets_values: "\<forall>e\<in>set (even_targets ads ahs sd ds c). snd e = c"
  unfolding even_targets_def using even_targets_values_fold[of "[]" c] by simp

lemma sum_list_const:
  "\<forall>e\<in>set tbl. snd e = (c::int) \<Longrightarrow> sum_list (map snd tbl) = c * int (length tbl)"
  by (induction tbl) (auto simp: algebra_simps)

lemma update_fresh: "k \<notin> fst ` set al \<Longrightarrow> AList.update k v al = al @ [(k, v)]"
  by (induction al) auto

lemma fold_update_fresh:
  assumes "distinct hs" and "inj_on f (set hs)" and "f ` set hs \<inter> fst ` set tbl = {}"
  shows "fold (\<lambda>h. AList.update (f h) c) hs tbl = tbl @ map (\<lambda>h. (f h, c)) hs"
  using assms
proof (induction hs arbitrary: tbl)
  case Nil
  then show ?case by simp
next
  case (Cons h hs)
  have fresh: "f h \<notin> fst ` set tbl" using Cons.prems(3) by auto
  have step: "AList.update (f h) c tbl = tbl @ [(f h, c)]"
    using fresh by (rule update_fresh)
  have "f ` set hs \<inter> fst ` set (tbl @ [(f h, c)]) = {}"
  proof -
    have "f h \<notin> f ` set hs" using Cons.prems(1,2) by (auto simp: inj_on_def)
    then show ?thesis using Cons.prems(3) by auto
  qed
  then have "fold (\<lambda>h. AList.update (f h) c) hs (tbl @ [(f h, c)])
               = (tbl @ [(f h, c)]) @ map (\<lambda>h. (f h, c)) hs"
    using Cons.IH Cons.prems(1,2) by (simp add: inj_on_def)
  then show ?case using step by simp
qed

lemma even_fold_length:
  assumes "distinct ahs" and "distinct ds"
    and "\<forall>e\<in>set tbl. fst (fst e) - toordinal sd \<notin> set ds"
  shows "length (fold (\<lambda>day_offset tbl.
             if day_active ads sd day_offset
             then fold (\<lambda>h. AList.update (day_hour_key sd day_offset h) c) ahs tbl
             else tbl) ds tbl)
         = length tbl + length (filter (day_active ads sd) ds) * length ahs"
  using assms
proof (induction ds arbitrary: tbl)
  case Nil
  then show ?case by simp
next
  case (Cons d ds)
  show ?case
  proof (cases "day_active ads sd d")
    case False
    then show ?thesis using Cons by simp
  next
    case True
    let ?tbl = "fold (\<lambda>h. AList.update (day_hour_key sd d h) c) ahs tbl"
    have inj: "inj_on (day_hour_key sd d) (set ahs)"
      by (auto simp: inj_on_def day_hour_key_def)
    have disj: "day_hour_key sd d ` set ahs \<inter> fst ` set tbl = {}"
      using Cons.prems(3) by (fastforce simp: day_hour_key_def)
    have eq: "?tbl = tbl @ map (\<lambda>h. (day_hour_key sd d h, c)) ahs"
      using fold_update_fresh[OF Cons.prems(1) inj disj] .
    have "\<forall>e\<in>set ?tbl. fst (fst e) - toordinal sd \<notin> set ds"
      using Cons.prems(2,3) unfolding eq by (auto simp: day_hour_key_def)
    then have "length (fold (\<lambda>day_offset tbl.
             if day_active ads sd day_offset
             then fold (\<lambda>h. AList.update (day_hour_key sd day_offset h) c) ahs tbl
             else tbl) ds ?tbl)
         = length ?tbl + length (filter (day_active ads sd) ds) * length ahs"
      using Cons.IH Cons.prems(1,2) by simp
    then show ?thesis using True eq by simp
  qed
qed

lemma even_targets_length:
  "distinct ahs \<Longrightarrow>
   int (length (even_targets ads ahs sd [0..n] c)) = count_active_days ads sd [0..n] * int (length ahs)"
  unfolding even_targets_def count_active_days_def
  using even_fold_length[of ahs "[0..n]" "[]" sd ads c] by simp

subsection \<open>The tables of the weighted modes\<close>

lemma weighted_fold_mem:
  assumes "(k, v) \<in> set (fold (\<lambda>(hour_key, weight). AList.update hour_key (g weight)) ws tbl)"
  shows "(\<exists>w. (k, w) \<in> set ws \<and> v = g w) \<or> (k, v) \<in> set tbl"
  using assms
proof (induction ws arbitrary: tbl)
  case Nil
  then show ?case by simp
next
  case (Cons a ws)
  obtain k0 w0 where a: "a = (k0, w0)" by (cases a)
  from Cons.prems have "(k, v) \<in> set (fold (\<lambda>(hour_key, weight). AList.update hour_key (g weight)) ws
                                   (AList.update k0 (g w0) tbl))"
    by (simp add: a)
  then have "(\<exists>w. (k, w) \<in> set ws \<and> v = g w) \<or> (k, v) \<in> set (AList.update k0 (g w0) tbl)"
    by (rule Cons.IH)
  then show ?case
    using set_update_subset[of k0 "g w0" tbl] a by auto
qed

lemma weighted_targets_mem:
  assumes "weighted_targets fl ws T = (None, tbl)" and "(k, v) \<in> set tbl"
  shows "\<exists>w. (k, w) \<in> set ws \<and> v = share fl (sum_list (map snd ws)) T w"
  using assms weighted_fold_mem[of k v "share fl (sum_list (map snd ws)) T" ws "[]"]
  by (auto simp: weighted_targets_def Let_def split: if_splits)

lemma share_mono:
  assumes "mono fl" and "0 < tw" and "0 \<le> T" and "w1 \<le> w2"
  shows "share fl tw T w1 \<le> share fl tw T w2"
proof -
  have "(of_int w1 :: rat) / of_int tw \<le> of_int w2 / of_int tw"
    using assms(2,4) by (simp add: divide_right_mono)
  then have "fl (of_int w1 / of_int tw) \<le> fl (of_int w2 / of_int tw)"
    by (rule monoD [OF assms(1)])
  then have "fl (of_int w1 / of_int tw) * of_int T \<le> fl (of_int w2 / of_int tw) * of_int T"
    using assms(3) by (simp add: mult_right_mono)
  then have "fl (fl (of_int w1 / of_int tw) * of_int T) \<le> fl (fl (of_int w2 / of_int tw) * of_int T)"
    by (rule monoD [OF assms(1)])
  then show ?thesis unfolding share_def by (rule ceiling_mono)
qed

lemma sum_weights_length:
  "\<forall>e\<in>set ws. (1::int) \<le> snd e \<Longrightarrow> int (length ws) \<le> sum_list (map snd ws)"
  by (induction ws) auto

lemma sum_weights_pos:
  assumes "\<forall>e\<in>set ws. (1::int) \<le> snd e" and "ws \<noteq> []"
  shows "0 < sum_list (map snd ws)"
proof -
  have "0 < int (length ws)" using assms(2) by simp
  then show ?thesis using sum_weights_length[OF assms(1)] by linarith
qed

lemma frontloaded_weights_mem:
  assumes "(k, w) \<in> set (frontloaded_weights ads ahs sd ds tah)"
  shows "\<exists>d h. d \<in> set ds \<and> h \<in> set ahs \<and> k = (toordinal sd + d, h)
               \<and> w = max 1 (tah - (d * 24 + h))"
  using assms by (auto simp: frontloaded_weights_def day_hour_key_def split: if_splits)

lemma backloaded_weights_mem:
  assumes "(k, w) \<in> set (backloaded_weights ads ahs sd ds)"
  shows "\<exists>d h. d \<in> set ds \<and> h \<in> set ahs \<and> k = (toordinal sd + d, h) \<and> w = d * 24 + h + 1"
  using assms by (auto simp: backloaded_weights_def day_hour_key_def split: if_splits)

lemma derive_targets_total_nonneg:
  assumes "derive_targets fl td adc ahc t = Inr t'" and "0 \<le> total t" and "0 \<le> adc" and "0 \<le> ahc"
  shows "0 \<le> total t'"
  using assms by (auto simp: derive_targets_def Let_def split: if_splits)

lemma count_active_days_nonneg: "0 \<le> count_active_days ads sd ds"
  by (simp add: count_active_days_def)

lemma frontloaded_antitone:
  assumes tbl: "weighted_targets fl (frontloaded_weights ads ahs sd [0..n] tah) T = (None, tbl)"
    and fl: "mono fl" and T: "0 \<le> T" and hrs: "\<forall>h\<in>set ahs. 0 \<le> h \<and> h < 24"
    and m1: "(k1, v1) \<in> set tbl" and m2: "(k2, v2) \<in> set tbl"
    and le: "fst k1 < fst k2 \<or> fst k1 = fst k2 \<and> snd k1 \<le> snd k2"
  shows "v2 \<le> v1"
proof -
  let ?ws = "frontloaded_weights ads ahs sd [0..n] tah"
  let ?tw = "sum_list (map snd ?ws)"
  obtain w1 where w1: "(k1, w1) \<in> set ?ws" "v1 = share fl ?tw T w1"
    using weighted_targets_mem[OF tbl m1] by blast
  obtain w2 where w2: "(k2, w2) \<in> set ?ws" "v2 = share fl ?tw T w2"
    using weighted_targets_mem[OF tbl m2] by blast
  obtain d1 h1 where k1: "h1 \<in> set ahs" "k1 = (toordinal sd + d1, h1)" "w1 = max 1 (tah - (d1 * 24 + h1))"
    using frontloaded_weights_mem[OF w1(1)] by blast
  obtain d2 h2 where k2: "h2 \<in> set ahs" "k2 = (toordinal sd + d2, h2)" "w2 = max 1 (tah - (d2 * 24 + h2))"
    using frontloaded_weights_mem[OF w2(1)] by blast
  have "0 \<le> h1" "h1 < 24" "0 \<le> h2" "h2 < 24" using hrs k1(1) k2(1) by auto
  then have "d1 * 24 + h1 \<le> d2 * 24 + h2" using le k1(2) k2(2) by auto
  then have wle: "w2 \<le> w1" using k1(3) k2(3) by auto
  have "\<forall>e\<in>set ?ws. 1 \<le> snd e"
    using frontloaded_weights_mem[of _ _ ads ahs sd "[0..n]" tah] by fastforce
  moreover have "?ws \<noteq> []" using w1(1) by auto
  ultimately have "0 < ?tw" by (rule sum_weights_pos)
  then show ?thesis using share_mono[OF fl _ T wle] w1(2) w2(2) by simp
qed

lemma backloaded_monotone:
  assumes tbl: "weighted_targets fl (backloaded_weights ads ahs sd [0..n]) T = (None, tbl)"
    and fl: "mono fl" and T: "0 \<le> T" and hrs: "\<forall>h\<in>set ahs. 0 \<le> h \<and> h < 24"
    and m1: "(k1, v1) \<in> set tbl" and m2: "(k2, v2) \<in> set tbl"
    and le: "fst k1 < fst k2 \<or> fst k1 = fst k2 \<and> snd k1 \<le> snd k2"
  shows "v1 \<le> v2"
proof -
  let ?ws = "backloaded_weights ads ahs sd [0..n]"
  let ?tw = "sum_list (map snd ?ws)"
  obtain w1 where w1: "(k1, w1) \<in> set ?ws" "v1 = share fl ?tw T w1"
    using weighted_targets_mem[OF tbl m1] by blast
  obtain w2 where w2: "(k2, w2) \<in> set ?ws" "v2 = share fl ?tw T w2"
    using weighted_targets_mem[OF tbl m2] by blast
  obtain d1 h1 where k1: "h1 \<in> set ahs" "k1 = (toordinal sd + d1, h1)" "w1 = d1 * 24 + h1 + 1"
    using backloaded_weights_mem[OF w1(1)] by blast
  obtain d2 h2 where k2: "h2 \<in> set ahs" "k2 = (toordinal sd + d2, h2)" "w2 = d2 * 24 + h2 + 1"
    using backloaded_weights_mem[OF w2(1)] by blast
  have "0 \<le> h1" "h1 < 24" "0 \<le> h2" "h2 < 24" using hrs k1(1) k2(1) by auto
  then have "d1 * 24 + h1 \<le> d2 * 24 + h2" using le k1(2) k2(2) by auto
  then have wle: "w1 \<le> w2" using k1(3) k2(3) by auto
  have "\<forall>e\<in>set ?ws. 1 \<le> snd e"
  proof
    fix e assume e: "e \<in> set ?ws"
    obtain k w where kw: "e = (k, w)" by (cases e)
    obtain d h where dh: "d \<in> set [0..n]" "h \<in> set ahs" "w = d * 24 + h + 1"
      using backloaded_weights_mem[of k w ads ahs sd "[0..n]"] e kw by blast
    have "0 \<le> d" "0 \<le> h" using dh(1,2) hrs by auto
    then show "1 \<le> snd e" using kw dh(3) by simp
  qed
  moreover have "?ws \<noteq> []" using w1(1) by auto
  ultimately have "0 < ?tw" by (rule sum_weights_pos)
  then show ?thesis using share_mono[OF fl _ T wle] w1(2) w2(2) by simp
qed

subsection \<open>The claims about the recalculation\<close>

text \<open>
  C2, as amended. Where the call returns, with \<open>adc\<close> the number of days of the
  campaign whose weekday is active, \<open>ahc\<close> the number of active hours and \<open>td\<close> the
  number of days of the campaign: the first positive target in the order monthly,
  total, daily, hourly is kept and the other three are computed from it. With
  \<open>monthly > 0\<close> the call returns only if \<open>adc\<close> and \<open>ahc\<close> are not zero, and then
  \<open>daily = ceil(monthly / adc)\<close>, \<open>hourly = ceil((monthly / adc) / ahc)\<close> and
  \<open>total = monthly\<close>. With no positive target the four targets are left as they are.
  With all four zero in mode \<^verbatim>\<open>'even'\<close>, every bucket of the table gets the target
  0, and the gate rejects wherever the table has an entry and the hourly counter is
  not negative; the gate decides on the window alone only where the table has no entry.
\<close>

theorem C2_priority_derivation:
  assumes ok: "calculate_schedule fl rnd now s = (None, s')"
    and sd: "start_date s' = Some sd" and ed: "end_date s' = Some ed"
  defines "t \<equiv> target_visits s" and "t' \<equiv> target_visits s'"
    and "td \<equiv> delta_days ed sd + 1"
    and "adc \<equiv> count_active_days (active_days s) sd [0..delta_days ed sd]"
    and "ahc \<equiv> int (length (active_hours s))"
  shows
   "(0 < monthly t \<longrightarrow>
       adc \<noteq> 0 \<and> ahc \<noteq> 0 \<and> monthly t' = monthly t \<and> total t' = monthly t
       \<and> daily t' = \<lceil>fl (of_int (monthly t) / of_int adc)\<rceil>
       \<and> hourly t' = \<lceil>fl (fl (of_int (monthly t) / of_int adc) / of_int ahc)\<rceil>)
    \<and> (monthly t \<le> 0 \<and> 0 < total t \<longrightarrow>
       total t' = total t
       \<and> monthly t' = \<lceil>fl (of_int (total t)
                             / (if fl (of_int td / 30) = 0 then 1 else fl (of_int td / 30)))\<rceil>
       \<and> daily t' = \<lceil>fl (of_int (total t) / of_int adc)\<rceil>
       \<and> hourly t' = \<lceil>fl (fl (of_int (total t) / of_int adc) / of_int ahc)\<rceil>)
    \<and> (monthly t \<le> 0 \<and> total t \<le> 0 \<and> 0 < daily t \<longrightarrow>
       daily t' = daily t
       \<and> hourly t' = \<lceil>fl (of_int (daily t) / of_int ahc)\<rceil>
       \<and> monthly t' = \<lceil>fl (fl (of_int (daily t) * fl (of_int adc / of_int td)) * 30)\<rceil>
       \<and> total t' = daily t * adc)
    \<and> (monthly t \<le> 0 \<and> total t \<le> 0 \<and> daily t \<le> 0 \<and> 0 < hourly t \<longrightarrow>
       hourly t' = hourly t
       \<and> daily t' = hourly t * ahc
       \<and> monthly t' = \<lceil>fl (fl (of_int (hourly t * ahc) * fl (of_int adc / of_int td)) * 30)\<rceil>
       \<and> total t' = hourly t * (adc * ahc))
    \<and> (monthly t \<le> 0 \<and> total t \<le> 0 \<and> daily t \<le> 0 \<and> hourly t \<le> 0 \<longrightarrow> t' = t)
    \<and> (monthly t = 0 \<and> total t = 0 \<and> daily t = 0 \<and> hourly t = 0 \<and> schedule_mode s = ''even'' \<longrightarrow>
       (\<forall>e\<in>set (hourly_targets s'). snd e = 0)
       \<and> (\<forall>s'' now'. hourly_targets s'' = hourly_targets s' \<and> 0 \<le> hourly_visits s''
             \<and> map_of (hourly_targets s'') (hour_key now') \<noteq> None
             \<longrightarrow> fst (should_generate_traffic now' s'') = False))
    \<and> (\<forall>s'' now'. map_of (hourly_targets s'') (hour_key now') = None \<longrightarrow>
         fst (should_generate_traffic now' s'')
           = (\<not> before_start s'' now' \<and> \<not> after_end s'' now'
              \<and> hour now' \<in> set (active_hours s'') \<and> weekday now' \<in> set (active_days s'')))"
proof -
  have d: "derive_targets fl td adc ahc t = Inr t'"
    using calculate_schedule_success(1)[OF ok sd ed] by (simp add: t_def t'_def td_def adc_def ahc_def)
  have b: "build_hourly_targets fl rnd (schedule_mode s) (active_days s) (active_hours s) sd
           [0..delta_days ed sd] t' = (None, hourly_targets s')"
    using calculate_schedule_success(2)[OF ok sd ed] by (simp add: t'_def)
  have p1: "adc \<noteq> 0 \<and> ahc \<noteq> 0 \<and> monthly t' = monthly t \<and> total t' = monthly t
       \<and> daily t' = \<lceil>fl (of_int (monthly t) / of_int adc)\<rceil>
       \<and> hourly t' = \<lceil>fl (fl (of_int (monthly t) / of_int adc) / of_int ahc)\<rceil>" if "0 < monthly t"
    using d that by (auto simp: derive_targets_def Let_def split: if_splits)
  have p2: "total t' = total t
       \<and> monthly t' = \<lceil>fl (of_int (total t)
                             / (if fl (of_int td / 30) = 0 then 1 else fl (of_int td / 30)))\<rceil>
       \<and> daily t' = \<lceil>fl (of_int (total t) / of_int adc)\<rceil>
       \<and> hourly t' = \<lceil>fl (fl (of_int (total t) / of_int adc) / of_int ahc)\<rceil>"
    if "monthly t \<le> 0" "0 < total t"
    using d that by (auto simp: derive_targets_def Let_def split: if_splits)
  have p3: "daily t' = daily t
       \<and> hourly t' = \<lceil>fl (of_int (daily t) / of_int ahc)\<rceil>
       \<and> monthly t' = \<lceil>fl (fl (of_int (daily t) * fl (of_int adc / of_int td)) * 30)\<rceil>
       \<and> total t' = daily t * adc"
    if "monthly t \<le> 0" "total t \<le> 0" "0 < daily t"
    using d that by (auto simp: derive_targets_def Let_def split: if_splits)
  have p4: "hourly t' = hourly t
       \<and> daily t' = hourly t * ahc
       \<and> monthly t' = \<lceil>fl (fl (of_int (hourly t * ahc) * fl (of_int adc / of_int td)) * 30)\<rceil>
       \<and> total t' = hourly t * (adc * ahc)"
    if "monthly t \<le> 0" "total t \<le> 0" "daily t \<le> 0" "0 < hourly t"
    using d that by (auto simp: derive_targets_def Let_def split: if_splits)
  have p5: "t' = t" if "monthly t \<le> 0" "total t \<le> 0" "daily t \<le> 0" "hourly t \<le> 0"
    using d that by (auto simp: derive_targets_def Let_def split: if_splits)
  have p6: "(\<forall>e\<in>set (hourly_targets s'). snd e = 0)
       \<and> (\<forall>s'' now'. hourly_targets s'' = hourly_targets s' \<and> 0 \<le> hourly_visits s''
             \<and> map_of (hourly_targets s'') (hour_key now') \<noteq> None
             \<longrightarrow> fst (should_generate_traffic now' s'') = False)"
    if z: "monthly t = 0" "total t = 0" "daily t = 0" "hourly t = 0" and m: "schedule_mode s = ''even''"
  proof -
    have "t' = t" using p5 z by simp
    then have tbl: "hourly_targets s' = even_targets (active_days s) (active_hours s) sd [0..delta_days ed sd] 0"
      using b m z by (simp add: build_hourly_targets_def)
    have all0: "\<forall>e\<in>set (hourly_targets s'). snd e = 0"
      unfolding tbl by (rule even_targets_values)
    have "fst (should_generate_traffic now' s'') = False"
      if h: "hourly_targets s'' = hourly_targets s'" "0 \<le> hourly_visits s''"
        "map_of (hourly_targets s'') (hour_key now') \<noteq> None" for s'' now'
    proof -
      obtain v where v: "map_of (hourly_targets s'') (hour_key now') = Some v"
        using h(3) by auto
      then have "(hour_key now', v) \<in> set (hourly_targets s')"
        using h(1) map_of_SomeD by metis
      then have "v = 0" using all0 by auto
      then show ?thesis using gate_rejects_zero_bucket v h(2) by simp
    qed
    then show ?thesis using all0 by blast
  qed
  have p7: "\<forall>s'' now'. map_of (hourly_targets s'') (hour_key now') = None \<longrightarrow>
         fst (should_generate_traffic now' s'')
           = (\<not> before_start s'' now' \<and> \<not> after_end s'' now'
              \<and> hour now' \<in> set (active_hours s'') \<and> weekday now' \<in> set (active_days s''))"
    using gate_without_bucket by blast
  show ?thesis using p1 p2 p3 p4 p5 p6 p7 by blast
qed

theorem C2_priority_derivation_witness:
  "0 < monthly (target_visits monthly_campaign)
   \<and> fst (calculate_schedule exact no_draws (at_hour 2024 1 1 9) monthly_campaign) = None
   \<and> monthly (target_visits (snd (calculate_schedule exact no_draws (at_hour 2024 1 1 9) monthly_campaign))) = 48
   \<and> total (target_visits (snd (calculate_schedule exact no_draws (at_hour 2024 1 1 9) monthly_campaign))) = 48
   \<and> daily (target_visits (snd (calculate_schedule exact no_draws (at_hour 2024 1 1 9) monthly_campaign))) = 48
   \<and> hourly (target_visits (snd (calculate_schedule exact no_draws (at_hour 2024 1 1 9) monthly_campaign))) = 24"
proof -
  let ?r = "calculate_schedule exact no_draws (at_hour 2024 1 1 9) monthly_campaign"
  have f: "fst ?r = None" by code_simp
  then have ok: "?r = (None, snd ?r)" by (metis prod.collapse)
  have sd: "start_date (snd ?r) = Some (at_hour 2024 1 1 9)" by code_simp
  have ed: "end_date (snd ?r) = Some (at_hour 2024 1 1 23)" by code_simp
  have m: "monthly (target_visits monthly_campaign) = 48" by code_simp
  have adc: "count_active_days (active_days monthly_campaign) (at_hour 2024 1 1 9)
               [0..delta_days (at_hour 2024 1 1 23) (at_hour 2024 1 1 9)] = 1" by code_simp
  have ahc: "int (length (active_hours monthly_campaign)) = 2" by code_simp
  show ?thesis
    using C2_priority_derivation [OF ok sd ed] m adc ahc f
    by (simp add: exact_def)
qed

text \<open>
  The claim as stated fails in its last part: the one-day campaign has all four targets
  zero; after the recalculation, at 9:00 on the campaign's day every window and
  calendar check passes and the gate still returns \<^verbatim>\<open>False\<close>, because the
  bucket's target is 0.
\<close>

theorem C2_zero_targets_counterexample:
  "target_visits one_day_campaign = \<lparr>hourly = 0, daily = 0, monthly = 0, total = 0\<rparr>
   \<and> fst (calculate_schedule exact no_draws (at_hour 2024 1 1 9) one_day_campaign) = None
   \<and> target_visits zero_targets_schedule = \<lparr>hourly = 0, daily = 0, monthly = 0, total = 0\<rparr>
   \<and> map_of (hourly_targets zero_targets_schedule) (hour_key (at_hour 2024 1 1 9)) = Some 0
   \<and> \<not> before_start zero_targets_schedule (at_hour 2024 1 1 9)
   \<and> \<not> after_end zero_targets_schedule (at_hour 2024 1 1 9)
   \<and> hour (at_hour 2024 1 1 9) \<in> set (active_hours zero_targets_schedule)
   \<and> weekday (at_hour 2024 1 1 9) \<in> set (active_days zero_targets_schedule)
   \<and> fst (should_generate_traffic (at_hour 2024 1 1 9) zero_targets_schedule) = False"
  by code_simp

text \<open>
  C3, as amended. When the monthly target is positive, so that it is the target the
  other three are computed from, or when no target is positive, so that none is
  computed, and the call returns: a second call, at any time and with any draws, leaves
  the four targets as the first call left them. It returns the very same scheduler,
  table included, in every mode but \<^verbatim>\<open>'random'\<close>, and in mode \<^verbatim>\<open>'random'\<close>
  too when the daily target is not positive, so that nothing is drawn.
\<close>

theorem C3_second_call_same:
  assumes "0 < monthly (target_visits s)
         \<or> (monthly (target_visits s) \<le> 0 \<and> total (target_visits s) \<le> 0
            \<and> daily (target_visits s) \<le> 0 \<and> hourly (target_visits s) \<le> 0)"
    and "calculate_schedule fl rnd now s = (None, s1)"
  shows "target_visits (snd (calculate_schedule fl rnd' now' s1)) = target_visits s1
     \<and> (schedule_mode s \<noteq> ''random'' \<or> daily (target_visits s1) \<le> 0
          \<longrightarrow> calculate_schedule fl rnd' now' s1 = (None, s1))"
proof -
  define ed where "ed = (case end_date s of None \<Rightarrow> month_end now | Some e \<Rightarrow> e)"
  define sd where "sd = (case start_date s of None \<Rightarrow> now | Some d \<Rightarrow> d)"
  define td where "td = delta_days ed sd + 1"
  define adc where "adc = count_active_days (active_days s) sd [0..td - 1]"
  define ahc where "ahc = int (length (active_hours s))"
  obtain t where t: "derive_targets fl td adc ahc (target_visits s) = Inr t"
    using assms(2) unfolding calculate_schedule_def Let_def ed_def sd_def td_def adc_def ahc_def
    by (auto split: sum.splits prod.splits)
  obtain tbl where
    tbl: "build_hourly_targets fl rnd (schedule_mode s) (active_days s) (active_hours s) sd
            [0..td - 1] t = (None, tbl)"
    and s1: "s1 = s\<lparr>end_date := Some ed, start_date := Some sd,
                     target_visits := t, hourly_targets := tbl\<rparr>"
    using assms(2) t unfolding calculate_schedule_def Let_def ed_def sd_def td_def adc_def ahc_def
    by (auto split: sum.splits prod.splits)
  have again: "derive_targets fl td adc ahc t = Inr t"
    using derive_targets_again [OF assms(1) t] .
  have fields: "target_visits (snd (calculate_schedule fl rnd' now' s1)) = target_visits s1"
    using again unfolding calculate_schedule_def Let_def s1
    by (simp add: td_def adc_def ahc_def split: prod.splits)
  have whole: "calculate_schedule fl rnd' now' s1 = (None, s1)"
    if "schedule_mode s \<noteq> ''random'' \<or> daily (target_visits s1) \<le> 0"
  proof -
    have "schedule_mode s \<noteq> ''random'' \<or> daily t \<le> 0" using that by (simp add: s1)
    then have "build_hourly_targets fl rnd' (schedule_mode s) (active_days s) (active_hours s) sd
            [0..td - 1] t = (None, tbl)"
      using tbl build_hourly_targets_tape [of "schedule_mode s" t fl rnd' "active_days s"
          "active_hours s" sd "[0..td - 1]" rnd] by simp
    then show ?thesis
      using again unfolding calculate_schedule_def Let_def s1
      by (simp add: td_def adc_def ahc_def)
  qed
  show ?thesis using fields whole by blast
qed

theorem C3_second_call_same_witness:
  "0 < monthly (target_visits monthly_campaign)
   \<and> schedule_mode monthly_campaign \<noteq> ''random''
   \<and> calculate_schedule exact no_draws (at_hour 2024 1 1 10)
        (snd (calculate_schedule exact no_draws (at_hour 2024 1 1 9) monthly_campaign))
      = (None, snd (calculate_schedule exact no_draws (at_hour 2024 1 1 9) monthly_campaign))
   \<and> target_visits one_day_campaign = \<lparr>hourly = 0, daily = 0, monthly = 0, total = 0\<rparr>
   \<and> calculate_schedule exact all_ones (at_hour 2024 1 1 10) zero_targets_schedule
      = (None, zero_targets_schedule)"
proof -
  let ?r = "calculate_schedule exact no_draws (at_hour 2024 1 1 9) monthly_campaign"
  have f: "fst ?r = None" by code_simp
  then have ok: "?r = (None, snd ?r)" by (metis prod.collapse)
  have m: "0 < monthly (target_visits monthly_campaign)" by code_simp
  have mode: "schedule_mode monthly_campaign \<noteq> ''random''" by code_simp
  have first: "calculate_schedule exact no_draws (at_hour 2024 1 1 10) (snd ?r) = (None, snd ?r)"
    using C3_second_call_same [OF _ ok, of no_draws "at_hour 2024 1 1 10"] m mode by blast
  let ?z = "calculate_schedule exact no_draws (at_hour 2024 1 1 9) one_day_campaign"
  have "fst ?z = None" by code_simp
  then have zok: "?z = (None, zero_targets_schedule)"
    unfolding zero_targets_schedule_def by (metis prod.collapse)
  have zt: "target_visits one_day_campaign = \<lparr>hourly = 0, daily = 0, monthly = 0, total = 0\<rparr>"
    by code_simp
  have zmode: "schedule_mode one_day_campaign \<noteq> ''random''" by code_simp
  have second: "calculate_schedule exact all_ones (at_hour 2024 1 1 10) zero_targets_schedule
      = (None, zero_targets_schedule)"
    using C3_second_call_same [OF _ zok, of all_ones "at_hour 2024 1 1 10"] zt zmode by simp
  show ?thesis using m mode first zt second by blast
qed

text \<open>
  The claim as stated fails in two ways. With nothing but a total target of 30 over
  fifteen days, the first call computes \<open>monthly = ceil(30 / (15 / 30)) = 60\<close>,
  \<open>daily = 2\<close> and \<open>hourly = 2\<close>; the second call finds \<open>monthly = 60 > 0\<close>, takes
  it as the authority and computes \<open>total = 60\<close>, \<open>daily = 4\<close> and \<open>hourly = 4\<close>:
  the targets and, in mode \<^verbatim>\<open>'even'\<close>, every bucket of the table differ from those
  of one call. And in mode \<^verbatim>\<open>'random'\<close> with a monthly target of 4 over the hours 9
  and 10 of one day, a first call whose four draws are all 0 and a second call whose
  four draws are all 1 leave the same targets but the tables 4, 0 and 0, 4.
\<close>

theorem C3_second_call_differs_counterexample:
  "fst (calculate_schedule exact no_draws (at_hour 2024 1 1 0) fortnight_campaign) = None
   \<and> fst (calculate_schedule exact no_draws (at_hour 2024 1 1 0) fortnight_once) = None
   \<and> target_visits fortnight_once = \<lparr>hourly = 2, daily = 2, monthly = 60, total = 30\<rparr>
   \<and> target_visits fortnight_twice = \<lparr>hourly = 4, daily = 4, monthly = 60, total = 60\<rparr>
   \<and> map_of (hourly_targets fortnight_once) (738886, 0) = Some 2
   \<and> map_of (hourly_targets fortnight_twice) (738886, 0) = Some 4
   \<and> fortnight_twice \<noteq> fortnight_once
   \<and> fst (calculate_schedule exact no_draws (at_hour 2024 1 1 9) random_campaign) = None
   \<and> fst (calculate_schedule exact all_ones (at_hour 2024 1 1 9) random_once) = None
   \<and> target_visits random_twice = target_visits random_once
   \<and> hourly_targets random_once = [((738886, 9), 4), ((738886, 10), 0)]
   \<and> hourly_targets random_twice = [((738886, 9), 0), ((738886, 10), 4)]"
  by code_simp

text \<open>
  C6. After a recalculation that returns: in mode \<^verbatim>\<open>'even'\<close> the targets of all
  buckets add up to the hourly target times the number of buckets in the table, and
  with no hour listed twice that number is the number of active days of the campaign
  times the number of active hours. In mode \<^verbatim>\<open>'frontloaded'\<close>, for a rounding that
  is monotone (as rounding to the nearest float is), a total target that is not
  negative and active hours between 0 and 23, a bucket that is not later than another
  has a target at least as large; so the first bucket's target is at least the last
  bucket's. In mode \<^verbatim>\<open>'backloaded'\<close> it is the other way round.
\<close>

theorem C6_distribution:
  assumes ok: "calculate_schedule fl rnd now s = (None, s')"
    and sd: "start_date s' = Some sd" and ed: "end_date s' = Some ed"
  shows
   "(schedule_mode s = ''even'' \<longrightarrow>
       sum_list (map snd (hourly_targets s'))
         = hourly (target_visits s') * int (length (hourly_targets s'))
       \<and> (distinct (active_hours s) \<longrightarrow>
            int (length (hourly_targets s'))
              = count_active_days (active_days s) sd [0..delta_days ed sd]
                * int (length (active_hours s))))
    \<and> (schedule_mode s = ''frontloaded'' \<and> mono fl \<and> 0 \<le> total (target_visits s)
        \<and> (\<forall>h\<in>set (active_hours s). 0 \<le> h \<and> h < 24) \<longrightarrow>
       (\<forall>k1 v1 k2 v2. (k1, v1) \<in> set (hourly_targets s') \<and> (k2, v2) \<in> set (hourly_targets s')
            \<and> (fst k1 < fst k2 \<or> fst k1 = fst k2 \<and> snd k1 \<le> snd k2) \<longrightarrow> v2 \<le> v1))
    \<and> (schedule_mode s = ''backloaded'' \<and> mono fl \<and> 0 \<le> total (target_visits s)
        \<and> (\<forall>h\<in>set (active_hours s). 0 \<le> h \<and> h < 24) \<longrightarrow>
       (\<forall>k1 v1 k2 v2. (k1, v1) \<in> set (hourly_targets s') \<and> (k2, v2) \<in> set (hourly_targets s')
            \<and> (fst k1 < fst k2 \<or> fst k1 = fst k2 \<and> snd k1 \<le> snd k2) \<longrightarrow> v1 \<le> v2))"
proof -
  let ?ads = "active_days s" and ?ahs = "active_hours s" and ?n = "delta_days ed sd"
  let ?t' = "target_visits s'" and ?tbl = "hourly_targets s'"
  have d: "derive_targets fl (?n + 1) (count_active_days ?ads sd [0..?n])
             (int (length ?ahs)) (target_visits s) = Inr ?t'"
    using calculate_schedule_success(1)[OF ok sd ed] .
  have b: "build_hourly_targets fl rnd (schedule_mode s) ?ads ?ahs sd [0..?n] ?t' = (None, ?tbl)"
    using calculate_schedule_success(2)[OF ok sd ed] .
  have T: "0 \<le> total ?t'" if "0 \<le> total (target_visits s)"
    using derive_targets_total_nonneg[OF d that count_active_days_nonneg] by simp
  have even: "sum_list (map snd ?tbl) = hourly ?t' * int (length ?tbl)
       \<and> (distinct ?ahs \<longrightarrow> int (length ?tbl) = count_active_days ?ads sd [0..?n] * int (length ?ahs))"
    if m: "schedule_mode s = ''even''"
  proof -
    have tbl: "?tbl = even_targets ?ads ?ahs sd [0..?n] (hourly ?t')"
      using b m by (simp add: build_hourly_targets_def)
    have "sum_list (map snd ?tbl) = hourly ?t' * int (length ?tbl)"
      using even_targets_values[of ?ads ?ahs sd "[0..?n]" "hourly ?t'"] tbl sum_list_const by metis
    moreover have "int (length ?tbl) = count_active_days ?ads sd [0..?n] * int (length ?ahs)"
      if "distinct ?ahs"
      unfolding tbl using that by (rule even_targets_length)
    ultimately show ?thesis by blast
  qed
  have frontl: "v2 \<le> v1"
    if m: "schedule_mode s = ''frontloaded''" and h: "mono fl" "0 \<le> total (target_visits s)"
      "\<forall>h\<in>set ?ahs. 0 \<le> h \<and> h < 24"
      and k: "(k1, v1) \<in> set ?tbl" "(k2, v2) \<in> set ?tbl"
        "fst k1 < fst k2 \<or> fst k1 = fst k2 \<and> snd k1 \<le> snd k2" for k1 v1 k2 v2
  proof -
    have "weighted_targets fl (frontloaded_weights ?ads ?ahs sd [0..?n]
             (count_active_days ?ads sd [0..?n] * int (length ?ahs))) (total ?t') = (None, ?tbl)"
      using b m by (simp add: build_hourly_targets_def)
    then show ?thesis
      using frontloaded_antitone h(1) T[OF h(2)] h(3) k by blast
  qed
  have backl: "v1 \<le> v2"
    if m: "schedule_mode s = ''backloaded''" and h: "mono fl" "0 \<le> total (target_visits s)"
      "\<forall>h\<in>set ?ahs. 0 \<le> h \<and> h < 24"
      and k: "(k1, v1) \<in> set ?tbl" "(k2, v2) \<in> set ?tbl"
        "fst k1 < fst k2 \<or> fst k1 = fst k2 \<and> snd k1 \<le> snd k2" for k1 v1 k2 v2
  proof -
    have "weighted_targets fl (backloaded_weights ?ads ?ahs sd [0..?n]) (total ?t') = (None, ?tbl)"
      using b m by (simp add: build_hourly_targets_def)
    then show ?thesis
      using backloaded_monotone h(1) T[OF h(2)] h(3) k by blast
  qed
  show ?thesis using even frontl backl by blast
qed

theorem C6_distribution_witness:
  "sum_list (map snd (hourly_targets
       (snd (calculate_schedule exact no_draws (at_hour 2024 1 1 9) hourly_campaign))))
     = hourly (target_visits
         (snd (calculate_schedule exact no_draws (at_hour 2024 1 1 9) hourly_campaign)))
       * int (length (hourly_targets
           (snd (calculate_schedule exact no_draws (at_hour 2024 1 1 9) hourly_campaign))))
   \<and> hourly_targets (snd (calculate_schedule exact no_draws (at_hour 2024 1 1 9) hourly_campaign))
       = [((738886, 9), 5), ((738886, 10), 5)]
   \<and> hourly_targets (snd (calculate_schedule exact no_draws (at_hour 2024 1 1 0) frontloaded_campaign))
       = [((738886, 0), 4), ((738886, 2), 2), ((738886, 3), 1), ((738886, 4), 1)]
   \<and> (1::int) \<le> 4
   \<and> hourly_targets (snd (calculate_schedule exact no_draws (at_hour 2024 1 1 0) backloaded_campaign))
       = [((738886, 0), 2), ((738886, 2), 6)]
   \<and> (2::int) \<le> 6"
proof -
  let ?e = "calculate_schedule exact no_draws (at_hour 2024 1 1 9) hourly_campaign"
  let ?f = "calculate_schedule exact no_draws (at_hour 2024 1 1 0) frontloaded_campaign"
  let ?b = "calculate_schedule exact no_draws (at_hour 2024 1 1 0) backloaded_campaign"
  have mono: "mono exact" by (simp add: mono_def exact_def)
  have "fst ?e = None" by code_simp
  then have e_ok: "?e = (None, snd ?e)" by (metis prod.collapse)
  have e_sd: "start_date (snd ?e) = Some (at_hour 2024 1 1 9)" by code_simp
  have e_ed: "end_date (snd ?e) = Some (at_hour 2024 1 1 23)" by code_simp
  have e_mode: "schedule_mode hourly_campaign = ''even''" by code_simp
  have e_tbl: "hourly_targets (snd ?e) = [((738886, 9), 5), ((738886, 10), 5)]" by code_simp
  have even_part: "sum_list (map snd (hourly_targets (snd ?e)))
      = hourly (target_visits (snd ?e)) * int (length (hourly_targets (snd ?e)))"
    using C6_distribution [OF e_ok e_sd e_ed] e_mode by blast
  have "fst ?f = None" by code_simp
  then have f_ok: "?f = (None, snd ?f)" by (metis prod.collapse)
  have f_sd: "start_date (snd ?f) = Some (at_hour 2024 1 1 0)" by code_simp
  have f_ed: "end_date (snd ?f) = Some (at_hour 2024 1 1 23)" by code_simp
  have f_mode: "schedule_mode frontloaded_campaign = ''frontloaded''" by code_simp
  have f_total: "0 \<le> total (target_visits frontloaded_campaign)" by code_simp
  have f_hours: "\<forall>h\<in>set (active_hours frontloaded_campaign). 0 \<le> h \<and> h < 24" by code_simp
  have f_tbl: "hourly_targets (snd ?f)
      = [((738886, 0), 4), ((738886, 2), 2), ((738886, 3), 1), ((738886, 4), 1)]" by code_simp
  have f_first: "((738886, 0), 4) \<in> set (hourly_targets (snd ?f))" unfolding f_tbl by simp
  have f_last: "((738886, 4), 1) \<in> set (hourly_targets (snd ?f))" unfolding f_tbl by simp
  have front_part: "(1::int) \<le> 4"
    using C6_distribution [OF f_ok f_sd f_ed] f_mode mono f_total f_hours f_first f_last
    by simp
  have "fst ?b = None" by code_simp
  then have b_ok: "?b = (None, snd ?b)" by (metis prod.collapse)
  have b_sd: "start_date (snd ?b) = Some (at_hour 2024 1 1 0)" by code_simp
  have b_ed: "end_date (snd ?b) = Some (at_hour 2024 1 1 23)" by code_simp
  have b_mode: "schedule_mode backloaded_campaign = ''backloaded''" by code_simp
  have b_total: "0 \<le> total (target_visits backloaded_campaign)" by code_simp
  have b_hours: "\<forall>h\<in>set (active_hours backloaded_campaign). 0 \<le> h \<and> h < 24" by code_simp
  have b_tbl: "hourly_targets (snd ?b) = [((738886, 0), 2), ((738886, 2), 6)]" by code_simp
  have b_first: "((738886, 0), 2) \<in> set (hourly_targets (snd ?b))" unfolding b_tbl by simp
  have b_last: "((738886, 2), 6) \<in> set (hourly_targets (snd ?b))" unfolding b_tbl by simp
  have back_part: "(2::int) \<le> 6"
    using C6_distribution [OF b_ok b_sd b_ed] b_mode mono b_total b_hours b_first b_last
    by simp
  show ?thesis using even_part e_tbl f_tbl front_part b_tbl back_part by blast
qed

section \<open>The setters: properties\<close>

lemma put_target_stores:
  "(period = ''hourly'' \<longrightarrow> hourly (put_target period v t) = v)
   \<and> (period = ''daily'' \<longrightarrow> daily (put_target period v t) = v)
   \<and> (period = ''monthly'' \<longrightarrow> monthly (put_target period v t) = v)
   \<and> (period = ''total'' \<longrightarrow> total (put_target period v t) = v)"
  by (simp add: put_target_def)

text \<open>
  C8, as amended. A mode that is not one of the four is refused:
  \<^verbatim>\<open>set_schedule_mode\<close> logs an error, raises nothing and leaves the scheduler as
  it was. \<^verbatim>\<open>set_target\<close> leaves the scheduler as it was for a period that is not
  one of the four keys, but it does not look at the value: for one of the four periods
  and any value, a negative one included, the call is the recalculation of the
  scheduler in which the value has been stored as that period's target. Where no
  target was positive before and the value is negative, the targets afterwards are the
  old ones with the negative value in place, and in mode \<^verbatim>\<open>'even'\<close> the call
  raises nothing. (Where another target is positive, the recalculation derives the
  targets from it and may write over the stored value.)
\<close>

theorem C8_setters_validation:
  "(mode \<notin> set valid_modes \<longrightarrow> set_schedule_mode fl rnd now mode s = (None, s))
   \<and> (period \<notin> set [''hourly'', ''daily'', ''monthly'', ''total'']
        \<longrightarrow> set_target fl rnd now period v s = (None, s))
   \<and> (period \<in> set [''hourly'', ''daily'', ''monthly'', ''total'']
        \<longrightarrow> set_target fl rnd now period v s
              = calculate_schedule fl rnd now
                  (s\<lparr>target_visits := put_target period v (target_visits s)\<rparr>)
            \<and> (period = ''hourly'' \<longrightarrow> hourly (put_target period v (target_visits s)) = v)
            \<and> (period = ''daily'' \<longrightarrow> daily (put_target period v (target_visits s)) = v)
            \<and> (period = ''monthly'' \<longrightarrow> monthly (put_target period v (target_visits s)) = v)
            \<and> (period = ''total'' \<longrightarrow> total (put_target period v (target_visits s)) = v))
   \<and> (period \<in> set [''hourly'', ''daily'', ''monthly'', ''total''] \<and> v < 0
       \<and> monthly (target_visits s) \<le> 0 \<and> total (target_visits s) \<le> 0
       \<and> daily (target_visits s) \<le> 0 \<and> hourly (target_visits s) \<le> 0
        \<longrightarrow> target_visits (snd (set_target fl rnd now period v s))
              = put_target period v (target_visits s)
            \<and> (schedule_mode s = ''even'' \<longrightarrow> fst (set_target fl rnd now period v s) = None))"
proof -
  have stored: "set_target fl rnd now period v s
              = calculate_schedule fl rnd now
                  (s\<lparr>target_visits := put_target period v (target_visits s)\<rparr>)"
    if "period \<in> set [''hourly'', ''daily'', ''monthly'', ''total'']"
    using that by (simp add: set_target_def)
  have last: "target_visits (snd (set_target fl rnd now period v s))
                 = put_target period v (target_visits s)
            \<and> (schedule_mode s = ''even'' \<longrightarrow> fst (set_target fl rnd now period v s) = None)"
    if p: "period \<in> set [''hourly'', ''daily'', ''monthly'', ''total'']" and v: "v < 0"
      and np: "monthly (target_visits s) \<le> 0" "total (target_visits s) \<le> 0"
       "daily (target_visits s) \<le> 0" "hourly (target_visits s) \<le> 0"
  proof -
    let ?t = "put_target period v (target_visits s)"
    have "monthly ?t \<le> 0" "total ?t \<le> 0" "daily ?t \<le> 0" "hourly ?t \<le> 0"
      using v np by (auto simp: put_target_def)
    then have d: "\<And>td adc ahc. derive_targets fl td adc ahc ?t = Inr ?t"
      by (auto simp: derive_targets_def Let_def)
    show ?thesis
      using p d
      by (simp add: set_target_def calculate_schedule_def Let_def build_hourly_targets_def
            split: prod.splits)
  qed
  have refused: "(mode \<notin> set valid_modes \<longrightarrow> set_schedule_mode fl rnd now mode s = (None, s))
   \<and> (period \<notin> set [''hourly'', ''daily'', ''monthly'', ''total'']
        \<longrightarrow> set_target fl rnd now period v s = (None, s))"
    by (simp add: set_schedule_mode_def set_target_def)
  show ?thesis
    using refused stored last put_target_stores [of period v "target_visits s"] by blast
qed

theorem C8_setters_validation_witness:
  "''weekly'' \<notin> set valid_modes
   \<and> set_schedule_mode exact no_draws (at_hour 2024 1 1 9) ''weekly'' one_day_campaign
       = (None, one_day_campaign)"
  using C8_setters_validation [of "''weekly''" exact no_draws "at_hour 2024 1 1 9" one_day_campaign]
  by (simp add: valid_modes_def)

text \<open>
  The claim as stated fails for a negative target: \<^verbatim>\<open>set_target('hourly', -1)\<close> on
  the one-day campaign raises nothing, stores \<open>-1\<close> and writes it into every bucket.
\<close>

theorem C8_negative_target_counterexample:
  "hourly (target_visits one_day_campaign) = 0
   \<and> hourly_targets one_day_campaign = []
   \<and> fst (set_target exact no_draws (at_hour 2024 1 1 9) ''hourly'' (- 1) one_day_campaign) = None
   \<and> hourly (target_visits
        (snd (set_target exact no_draws (at_hour 2024 1 1 9) ''hourly'' (- 1) one_day_campaign))) = - 1
   \<and> hourly_targets
        (snd (set_target exact no_draws (at_hour 2024 1 1 9) ''hourly'' (- 1) one_day_campaign))
       = [((738886, 9), - 1), ((738886, 10), - 1)]"
  by code_simp

section \<open>The traffic bot: properties\<close>

subsection \<open>What the collaborators' answers decide\<close>

lemma choose_network_counters:
  "visits (fst (choose_network e st)) = visits st
   \<and> successful_visits (fst (choose_network e st)) = successful_visits st
   \<and> failed_visits (fst (choose_network e st)) = failed_visits st"
  by (simp add: choose_network_def split: outcome.splits)

lemma solve_captcha_counters:
  "visits (fst (solve_captcha e st)) = visits st
   \<and> successful_visits (fst (solve_captcha e st)) = successful_visits st
   \<and> failed_visits (fst (solve_captcha e st)) = failed_visits st"
  by (simp add: solve_captcha_def split: outcome.splits)

lemma count_device_counters:
  "visits (count_device d st) = visits st
   \<and> successful_visits (count_device d st) = successful_visits st
   \<and> failed_visits (count_device d st) = failed_visits st"
  by (simp add: count_device_def)

lemma count_referrer_counters:
  "visits (count_referrer d st) = visits st
   \<and> successful_visits (count_referrer d st) = successful_visits st
   \<and> failed_visits (count_referrer d st) = failed_visits st"
  by (simp add: count_referrer_def)

lemma interact_with_page_counters:
  "visits (fst (interact_with_page i st)) = visits st
   \<and> successful_visits (fst (interact_with_page i st)) = successful_visits st
   \<and> failed_visits (fst (interact_with_page i st)) = failed_visits st"
  by (simp add: interact_with_page_def Let_def)

lemma visit_subpages_counters:
  "visits (visit_subpages ps st) = visits st
   \<and> successful_visits (visit_subpages ps st) = successful_visits st
   \<and> failed_visits (visit_subpages ps st) = failed_visits st"
  by (induction ps st rule: visit_subpages.induct) (simp_all add: interact_with_page_counters)

lemma choose_network_result: "snd (choose_network e st) = snd (choose_network e st')"
  by (simp add: choose_network_def split: outcome.splits)

lemma solve_captcha_result: "snd (solve_captcha e st) = snd (solve_captcha e st')"
  by (simp add: solve_captcha_def split: outcome.splits)

lemma interact_with_page_result: "snd (interact_with_page i st) = snd (interact_with_page i st')"
  by (simp add: interact_with_page_def Let_def)

lemma visit_attempt_result: "snd (visit_attempt e b) = snd (visit_attempt e b')"
proof -
  define st3 where "st3 = count_referrer (referrer_type e) (count_device (device_type e) (fst (choose_network e (stats b))))"
  define st3' where "st3' = count_referrer (referrer_type e) (count_device (device_type e) (fst (choose_network e (stats b'))))"
  have n: "snd (choose_network e (stats b')) = snd (choose_network e (stats b))"
    by (rule choose_network_result)
  have c: "snd (solve_captcha e st3') = snd (solve_captcha e st3)"
    by (rule solve_captcha_result)
  have i: "snd (interact_with_page (main_interaction e) (fst (solve_captcha e st3')))
         = snd (interact_with_page (main_interaction e) (fst (solve_captcha e st3)))"
    by (rule interact_with_page_result)
  show ?thesis
    unfolding visit_attempt_def Let_def case_prod_beta st3_def [symmetric] st3'_def [symmetric]
    by (simp add: n c i split: outcome.split)
qed

lemma visit_attempt_visits: "visits (stats (fst (visit_attempt e b))) = visits (stats b)"
  unfolding visit_attempt_def Let_def case_prod_beta
  by (simp add: choose_network_counters solve_captcha_counters count_device_counters
        count_referrer_counters interact_with_page_counters visit_subpages_counters
        split: outcome.split)

lemma visit_attempt_successful:
  "successful_visits (stats (fst (visit_attempt e b)))
     = successful_visits (stats b) + (if snd (visit_attempt e b) = Returns True then 1 else 0)"
  unfolding visit_attempt_def Let_def case_prod_beta
  by (simp add: choose_network_counters solve_captcha_counters count_device_counters
        count_referrer_counters interact_with_page_counters visit_subpages_counters
        split: outcome.split)

lemma visit_attempt_failed:
  "failed_visits (stats (fst (visit_attempt e b)))
     = failed_visits (stats b) + (if snd (visit_attempt e b) = Returns False then 1 else 0)"
  unfolding visit_attempt_def Let_def case_prod_beta
  by (simp add: choose_network_counters solve_captcha_counters count_device_counters
        count_referrer_counters interact_with_page_counters visit_subpages_counters
        split: outcome.split)

lemma visit_attempt_returns_True:
  "snd (visit_attempt e b) = Returns True \<Longrightarrow> driver_created e \<and> page_title e \<noteq> Returns []"
  unfolding visit_attempt_def Let_def case_prod_beta
  by (simp split: outcome.splits if_splits)

lemma visit_attempt_returns_False:
  "snd (visit_attempt e b) = Returns False \<Longrightarrow> \<not> driver_created e \<or> page_title e = Returns []"
  unfolding visit_attempt_def Let_def case_prod_beta
  by (simp split: outcome.splits if_splits)

lemma check_schedule_stats: "stats (snd (check_schedule now b)) = stats b"
  by (simp add: check_schedule_def split: prod.split)

lemma check_schedule_queue: "task_queue (snd (check_schedule now b)) = task_queue b"
  by (simp add: check_schedule_def split: prod.split)

lemma search_attempt_queue: "task_queue (fst (search_attempt e b)) = task_queue b"
  unfolding search_attempt_def case_prod_beta
  by (simp split: outcome.split)

lemma search_google_queue: "task_queue (snd (search_google e keyword b)) = task_queue b"
  unfolding search_google_def case_prod_beta
  by (simp add: search_attempt_queue check_schedule_queue)

lemma search_attempt_result: "snd (snd (search_attempt e b)) = snd (snd (search_attempt e b'))"
proof -
  have n: "snd (choose_network e (stats b')) = snd (choose_network e (stats b))"
    by (rule choose_network_result)
  have c: "snd (solve_captcha e (fst (choose_network e (stats b'))))
         = snd (solve_captcha e (fst (choose_network e (stats b))))"
    by (rule solve_captcha_result)
  show ?thesis
    unfolding search_attempt_def case_prod_beta
    by (simp add: n c split: outcome.split)
qed

lemma search_attempt_raises: "snd (snd (search_attempt e b)) = Raises \<Longrightarrow> fst (snd (search_attempt e b)) = []"
  unfolding search_attempt_def case_prod_beta
  by (simp split: outcome.splits if_splits)

lemma search_attempt_no_driver: "\<not> driver_created e \<Longrightarrow> fst (snd (search_attempt e b)) = []"
  unfolding search_attempt_def case_prod_beta
  by (simp split: outcome.splits)

lemma search_google_failed:
  assumes "\<not> fst (check_schedule (clock_gate e) b) \<or> \<not> driver_created e
           \<or> snd (snd (search_attempt e b)) = Raises"
  shows "fst (search_google e keyword b) = []"
proof -
  let ?b1 = "snd (check_schedule (clock_gate e) b)"
  have "fst (snd (search_attempt e ?b1)) = []"
    if "\<not> driver_created e \<or> snd (snd (search_attempt e b)) = Raises"
    using that search_attempt_no_driver [of e ?b1] search_attempt_raises [of e ?b1]
      search_attempt_result [of e ?b1 b] by auto
  then show ?thesis
    using assms unfolding search_google_def case_prod_beta by auto
qed

lemma check_schedule_ignores_queue:
  "fst (check_schedule now (b\<lparr>task_queue := q\<rparr>)) = fst (check_schedule now b)"
  by (simp add: check_schedule_def split: prod.split)

subsection \<open>Once every worker has left its loop\<close>

lemma finished_pool_step:
  assumes "running (the_bot p)" and "\<forall>th\<in>set (threads p). th = Finished" and "ev \<noteq> Stop"
  shows "running (the_bot (step ev p)) \<and> (\<forall>th\<in>set (threads (step ev p)). th = Finished)
         \<and> task_queue (the_bot (step ev p)) = task_queue (the_bot p)"
proof (cases ev)
  case (Start now n)
  then show ?thesis using assms by (simp add: start_def Let_def)
next
  case Pause
  then show ?thesis using assms by (simp add: pause_def)
next
  case Resume
  then show ?thesis using assms by (simp add: resume_def)
next
  case Stop
  then show ?thesis using assms by simp
next
  case (Worker i e)
  have "\<not> (i < length (threads p) \<and> threads p ! i = In_loop)"
    using assms(2) nth_mem by fastforce
  then have "worker_pass i e p = p"
    unfolding worker_pass_def by (rule if_not_P)
  then show ?thesis using Worker assms by simp
qed

lemma finished_pool_stays:
  assumes "running (the_bot p)" and "\<forall>th\<in>set (threads p). th = Finished" and "Stop \<notin> set evs"
  shows "task_queue (the_bot (run evs p)) = task_queue (the_bot p)"
  using assms unfolding run_def
proof (induction evs arbitrary: p)
  case Nil
  then show ?case by simp
next
  case (Cons ev evs)
  have ev: "ev \<noteq> Stop" and evs: "Stop \<notin> set evs" using Cons.prems(3) by auto
  have s: "running (the_bot (step ev p))" "\<forall>th\<in>set (threads (step ev p)). th = Finished"
    "task_queue (the_bot (step ev p)) = task_queue (the_bot p)"
    using finished_pool_step [OF Cons.prems(1,2) ev] by auto
  show ?case using Cons.IH [OF s(1,2) evs] s(3) by simp
qed

subsection \<open>The claims about the bot\<close>

text \<open>
  C7. A worker that takes a \<^verbatim>\<open>search\<close> task off the queue puts a \<^verbatim>\<open>visit\<close>
  task for each of the first three results at the end of the queue, in their order: for
  \<open>n\<close> results these are \<open>min n 3\<close> tasks. A search that the schedule rejects, that
  gets no driver, or in which a collaborator raises returns no result, and nothing is
  queued. (One worker's turn is taken as a whole; what other workers put on the queue
  meanwhile is not part of it.)
\<close>

theorem C7_search_enqueues_top_three:
  assumes "task_queue b = Search keyword # rest"
  shows
   "task_queue (worker_body e b)
      = rest @ map Visit (take 3 (fst (search_google e keyword (b\<lparr>task_queue := rest\<rparr>))))
    \<and> length (map Visit (take 3 (fst (search_google e keyword (b\<lparr>task_queue := rest\<rparr>)))))
        = min (length (fst (search_google e keyword (b\<lparr>task_queue := rest\<rparr>)))) 3
    \<and> (\<not> fst (check_schedule (clock_gate e) b) \<or> \<not> driver_created e
         \<or> snd (snd (search_attempt e b)) = Raises
        \<longrightarrow> task_queue (worker_body e b) = rest)"
proof -
  let ?b1 = "b\<lparr>task_queue := rest\<rparr>"
  have q: "task_queue (worker_body e b) = rest @ map Visit (take 3 (fst (search_google e keyword ?b1)))"
    using assms search_google_queue [of e keyword ?b1]
    by (simp add: worker_body_def Let_def case_prod_beta)
  have failed: "fst (search_google e keyword ?b1) = []"
    if "\<not> fst (check_schedule (clock_gate e) b) \<or> \<not> driver_created e
         \<or> snd (snd (search_attempt e b)) = Raises"
    using that search_google_failed [of e ?b1 keyword] search_attempt_result [of e ?b1 b]
    by (simp add: check_schedule_ignores_queue)
  show ?thesis using q failed by auto
qed

theorem C7_search_enqueues_top_three_witness:
  "task_queue (the_bot (start (at_hour 2024 1 1 9) 1 keyword_pool)) = [Search ''isabelle'']
   \<and> length (fst (search_google calm_env ''isabelle''
        ((the_bot (start (at_hour 2024 1 1 9) 1 keyword_pool))\<lparr>task_queue := []\<rparr>))) = 5
   \<and> task_queue (worker_body calm_env (the_bot (start (at_hour 2024 1 1 9) 1 keyword_pool)))
       = [Visit ''http://a.example'', Visit ''http://b.example'', Visit ''http://c.example'']"
proof -
  let ?b = "the_bot (start (at_hour 2024 1 1 9) 1 keyword_pool)"
  have q: "task_queue ?b = [Search ''isabelle'']" by code_simp
  have r: "fst (search_google calm_env ''isabelle'' (?b\<lparr>task_queue := []\<rparr>))
      = [''http://a.example'', ''http://b.example'', ''http://c.example'',
         ''http://d.example'', ''http://e.example'']" by code_simp
  show ?thesis
    using C7_search_enqueues_top_three [OF q, of calm_env] q r by simp
qed

text \<open>
  C9. The claim asks that the workers that exist go on after \<^verbatim>\<open>resume()\<close>. The
  docstring of \<^verbatim>\<open>pause\<close> says \<^verbatim>\<open>Pause the traffic bot without stopping threads\<close>,
  but the worker's loop is \<^verbatim>\<open>while self.running and not self.paused\<close>: a worker
  that tests the condition while the bot is paused returns from \<^verbatim>\<open>worker\<close>, and
  \<^verbatim>\<open>resume\<close> only clears the flag. In the pool with two URLs and one worker,
  paused during the first visit, the worker has left its loop when it is back from the
  visit; after \<^verbatim>\<open>resume()\<close> the bot is running and not paused, the second task is
  still in the queue and only one visit was made, however often the worker is given a
  turn. Without the pause the same worker makes both visits.
\<close>

theorem C9_workers_gone_after_pause:
  "task_queue (the_bot (run [Start (at_hour 2024 1 1 9) 1] url_pool))
     = [Visit ''http://a.example'', Visit ''http://b.example'']
   \<and> threads (run [Start (at_hour 2024 1 1 9) 1] url_pool) = [In_loop]
   \<and> threads (run [Start (at_hour 2024 1 1 9) 1, Worker 0 calm_env, Pause, Worker 0 calm_env]
                url_pool) = [Finished]
   \<and> running (the_bot paused_and_resumed)
   \<and> \<not> paused (the_bot paused_and_resumed)
   \<and> threads paused_and_resumed = [Finished]
   \<and> task_queue (the_bot paused_and_resumed) = [Visit ''http://b.example'']
   \<and> visits (stats (the_bot paused_and_resumed)) = 1
   \<and> task_queue (the_bot never_paused) = []
   \<and> visits (stats (the_bot never_paused)) = 2"
  by code_simp

theorem C9_workers_gone_after_pause_witness:
  "threads paused_and_resumed = [Finished]
   \<and> task_queue (the_bot paused_and_resumed) = [Visit ''http://b.example'']"
  using C9_workers_gone_after_pause by simp

lemma visit_begin_counters:
  "(\<not> fst (visit_begin e url b) \<longrightarrow>
       visits (stats (snd (visit_begin e url b))) = visits (stats b))
   \<and> (fst (visit_begin e url b) \<longrightarrow>
       visits (stats (snd (visit_begin e url b))) = visits (stats b) + 1)
   \<and> successful_visits (stats (snd (visit_begin e url b))) = successful_visits (stats b)
   \<and> failed_visits (stats (snd (visit_begin e url b))) = failed_visits (stats b)
   \<and> fst (visit_begin e url b) = fst (check_schedule (clock_gate e) b)"
  unfolding visit_begin_def case_prod_beta
  by (simp add: check_schedule_stats)

lemma visit_finish_counters:
  "visits (stats (snd (visit_finish e b))) = visits (stats b)
   \<and> successful_visits (stats (snd (visit_finish e b)))
       = successful_visits (stats b) + (if fst (visit_finish e b) then 1 else 0)
   \<and> failed_visits (stats (snd (visit_finish e b)))
       = failed_visits (stats b) + (if fst (visit_finish e b) then 0 else 1)
   \<and> (fst (visit_finish e b) \<longleftrightarrow> snd (visit_attempt e b) = Returns True)"
proof (cases "snd (visit_attempt e b)")
  case Raises
  then have "visit_finish e b
      = (False, (fst (visit_attempt e b))\<lparr>stats := (stats (fst (visit_attempt e b)))
           \<lparr>failed_visits := failed_visits (stats (fst (visit_attempt e b))) + 1\<rparr>\<rparr>)"
    unfolding visit_finish_def case_prod_beta by simp
  then show ?thesis
    using Raises visit_attempt_visits [of e b] visit_attempt_successful [of e b]
      visit_attempt_failed [of e b] by simp
next
  case (Returns r0)
  then have "visit_finish e b = (r0, fst (visit_attempt e b))"
    unfolding visit_finish_def case_prod_beta by simp
  then show ?thesis
    using Returns visit_attempt_visits [of e b] visit_attempt_successful [of e b]
      visit_attempt_failed [of e b] by simp
qed

lemma visit_finish_fails_iff:
  "\<not> fst (visit_finish e b) \<longleftrightarrow>
     \<not> driver_created e \<or> page_title e = Returns [] \<or> snd (visit_attempt e b) = Raises"
proof (cases "snd (visit_attempt e b)")
  case Raises
  then show ?thesis using visit_finish_counters [of e b] by simp
next
  case (Returns r0)
  show ?thesis
  proof (cases r0)
    case True
    then show ?thesis
      using Returns visit_finish_counters [of e b] visit_attempt_returns_True [of e b] by simp
  next
    case False
    then show ?thesis
      using Returns visit_finish_counters [of e b] visit_attempt_returns_False [of e b] by auto
  qed
qed

text \<open>
  C10, as amended. A call of \<^verbatim>\<open>visit_url\<close> that the schedule rejects returns
  \<^verbatim>\<open>False\<close> and leaves \<open>visits\<close>, \<open>successful_visits\<close> and \<open>failed_visits\<close>
  alone. A call that the schedule permits adds one to \<open>visits\<close> in its first part,
  before the browser is at work, and one to exactly one of the other two in its second
  part, when the work is over: to \<open>failed_visits\<close>, returning \<^verbatim>\<open>False\<close>, when no
  driver was created, when the page title is empty or when a collaborator raised; to
  \<open>successful_visits\<close>, returning \<^verbatim>\<open>True\<close>, otherwise, the bounce included. So a
  call between whose two parts no other call changes the counters keeps
  \<open>visits = successful_visits + failed_visits\<close>. The last four parts of the theorem
  are about the two parts of a call on any state of the bot, \<open>b0\<close>, which may be one
  that other workers have changed.
\<close>

theorem C10_visit_counters:
  assumes "visit_url e url b = (r, b')"
  shows
   "(\<not> fst (check_schedule (clock_gate e) b) \<longrightarrow>
       \<not> r \<and> visits (stats b') = visits (stats b)
       \<and> successful_visits (stats b') = successful_visits (stats b)
       \<and> failed_visits (stats b') = failed_visits (stats b))
    \<and> (fst (check_schedule (clock_gate e) b) \<longrightarrow>
       visits (stats b') = visits (stats b) + 1
       \<and> (r \<longrightarrow> successful_visits (stats b') = successful_visits (stats b) + 1
                \<and> failed_visits (stats b') = failed_visits (stats b))
       \<and> (\<not> r \<longrightarrow> successful_visits (stats b') = successful_visits (stats b)
                \<and> failed_visits (stats b') = failed_visits (stats b) + 1)
       \<and> (\<not> r \<longleftrightarrow> \<not> driver_created e \<or> page_title e = Returns []
                      \<or> snd (visit_attempt e b) = Raises))
    \<and> (visits (stats b) = successful_visits (stats b) + failed_visits (stats b) \<longrightarrow>
       visits (stats b') = successful_visits (stats b') + failed_visits (stats b'))
    \<and> (fst (visit_begin e url b0) \<longrightarrow>
       visits (stats (snd (visit_begin e url b0))) = visits (stats b0) + 1
       \<and> successful_visits (stats (snd (visit_begin e url b0))) = successful_visits (stats b0)
       \<and> failed_visits (stats (snd (visit_begin e url b0))) = failed_visits (stats b0))
    \<and> visits (stats (snd (visit_finish e b0))) = visits (stats b0)
    \<and> (fst (visit_finish e b0) \<longrightarrow>
       successful_visits (stats (snd (visit_finish e b0))) = successful_visits (stats b0) + 1
       \<and> failed_visits (stats (snd (visit_finish e b0))) = failed_visits (stats b0))
    \<and> (\<not> fst (visit_finish e b0) \<longrightarrow>
       successful_visits (stats (snd (visit_finish e b0))) = successful_visits (stats b0)
       \<and> failed_visits (stats (snd (visit_finish e b0))) = failed_visits (stats b0) + 1)"
proof -
  have parts: "(fst (visit_begin e url b0) \<longrightarrow>
       visits (stats (snd (visit_begin e url b0))) = visits (stats b0) + 1
       \<and> successful_visits (stats (snd (visit_begin e url b0))) = successful_visits (stats b0)
       \<and> failed_visits (stats (snd (visit_begin e url b0))) = failed_visits (stats b0))
    \<and> visits (stats (snd (visit_finish e b0))) = visits (stats b0)
    \<and> (fst (visit_finish e b0) \<longrightarrow>
       successful_visits (stats (snd (visit_finish e b0))) = successful_visits (stats b0) + 1
       \<and> failed_visits (stats (snd (visit_finish e b0))) = failed_visits (stats b0))
    \<and> (\<not> fst (visit_finish e b0) \<longrightarrow>
       successful_visits (stats (snd (visit_finish e b0))) = successful_visits (stats b0)
       \<and> failed_visits (stats (snd (visit_finish e b0))) = failed_visits (stats b0) + 1)"
    using visit_begin_counters [of e url b0] visit_finish_counters [of e b0] by simp
  define b2 where "b2 = snd (visit_begin e url b)"
  have g: "fst (visit_begin e url b) = fst (check_schedule (clock_gate e) b)"
    using visit_begin_counters [of e url b] by simp
  have whole: "(\<not> fst (check_schedule (clock_gate e) b) \<longrightarrow>
       \<not> r \<and> visits (stats b') = visits (stats b)
       \<and> successful_visits (stats b') = successful_visits (stats b)
       \<and> failed_visits (stats b') = failed_visits (stats b))
    \<and> (fst (check_schedule (clock_gate e) b) \<longrightarrow>
       visits (stats b') = visits (stats b) + 1
       \<and> (r \<longrightarrow> successful_visits (stats b') = successful_visits (stats b) + 1
                \<and> failed_visits (stats b') = failed_visits (stats b))
       \<and> (\<not> r \<longrightarrow> successful_visits (stats b') = successful_visits (stats b)
                \<and> failed_visits (stats b') = failed_visits (stats b) + 1)
       \<and> (\<not> r \<longleftrightarrow> \<not> driver_created e \<or> page_title e = Returns []
                      \<or> snd (visit_attempt e b) = Raises))"
  proof (cases "fst (check_schedule (clock_gate e) b)")
    case False
    then have "r = False" "b' = b2"
      using assms g unfolding visit_url_def case_prod_beta b2_def by simp_all
    then show ?thesis
      using False g visit_begin_counters [of e url b] unfolding b2_def by simp
  next
    case True
    then have rb: "r = fst (visit_finish e b2)" "b' = snd (visit_finish e b2)"
      using assms g unfolding visit_url_def case_prod_beta b2_def by auto
    have st2: "visits (stats b2) = visits (stats b) + 1"
      "successful_visits (stats b2) = successful_visits (stats b)"
      "failed_visits (stats b2) = failed_visits (stats b)"
      using True g visit_begin_counters [of e url b] unfolding b2_def by simp_all
    have iff: "\<not> r \<longleftrightarrow> \<not> driver_created e \<or> page_title e = Returns []
                      \<or> snd (visit_attempt e b) = Raises"
      using visit_finish_fails_iff [of e b2] visit_attempt_result [of e b2 b] rb by simp
    have v: "visits (stats b') = visits (stats b) + 1"
      using rb st2 visit_finish_counters [of e b2] by simp
    have sf: "successful_visits (stats b') = successful_visits (stats b) + (if r then 1 else 0)"
      "failed_visits (stats b') = failed_visits (stats b) + (if r then 0 else 1)"
      using rb st2 visit_finish_counters [of e b2] by simp_all
    show ?thesis
    proof (cases r)
      case True
      then show ?thesis
        using \<open>fst (check_schedule (clock_gate e) b)\<close> v sf iff by auto
    next
      case False
      then show ?thesis
        using \<open>fst (check_schedule (clock_gate e) b)\<close> v sf iff by auto
    qed
  qed
  then have inv: "visits (stats b) = successful_visits (stats b) + failed_visits (stats b) \<longrightarrow>
       visits (stats b') = successful_visits (stats b') + failed_visits (stats b')"
    by (cases "fst (check_schedule (clock_gate e) b)"; cases r) auto
  show ?thesis using whole inv parts by blast
qed

theorem C10_visit_counters_witness:
  "fst (check_schedule (clock_gate calm_env) calm_bot)
   \<and> visits (stats calm_bot) = successful_visits (stats calm_bot) + failed_visits (stats calm_bot)
   \<and> fst (visit_url calm_env ''http://a.example'' calm_bot)
   \<and> visits (stats (snd (visit_url calm_env ''http://a.example'' calm_bot))) = 1
   \<and> successful_visits (stats (snd (visit_url calm_env ''http://a.example'' calm_bot))) = 1
   \<and> failed_visits (stats (snd (visit_url calm_env ''http://a.example'' calm_bot))) = 0"
proof -
  have g: "fst (check_schedule (clock_gate calm_env) calm_bot)" by code_simp
  have r: "fst (visit_url calm_env ''http://a.example'' calm_bot)" by code_simp
  have z: "visits (stats calm_bot) = 0" "successful_visits (stats calm_bot) = 0"
    "failed_visits (stats calm_bot) = 0" by code_simp+
  have eq: "visit_url calm_env ''http://a.example'' calm_bot
      = (fst (visit_url calm_env ''http://a.example'' calm_bot),
         snd (visit_url calm_env ''http://a.example'' calm_bot))" by simp
  show ?thesis using C10_visit_counters [OF eq] g r z by simp
qed

text \<open>
  The claim as stated fails where calls overlap, as they do with more than one worker:
  \<^verbatim>\<open>start\<close> runs three by default, on one \<^verbatim>\<open>stats\<close> dictionary and with no
  lock. Two workers start a visit each, and the first visit ends while the second
  worker's browser is still at work: after this completed call \<open>visits\<close> is 2 and
  \<open>successful_visits + failed_visits\<close> is 1.
\<close>

theorem C10_overlapping_calls_counterexample:
  "visits (stats calm_bot) = successful_visits (stats calm_bot) + failed_visits (stats calm_bot)
   \<and> fst (visit_begin calm_env ''http://a.example'' calm_bot)
   \<and> fst (visit_begin calm_env ''http://b.example''
            (snd (visit_begin calm_env ''http://a.example'' calm_bot)))
   \<and> fst (visit_finish calm_env two_visits_started)
   \<and> visits (stats first_visit_finished) = 2
   \<and> successful_visits (stats first_visit_finished) = 1
   \<and> failed_visits (stats first_visit_finished) = 0
   \<and> visits (stats first_visit_finished)
       \<noteq> successful_visits (stats first_visit_finished) + failed_visits (stats first_visit_finished)"
  by code_simp

end
